theory Spec2Isabelle
  imports Main "HOL-Library.Sublist"
begin

section \<open>Python string primitives used by the conversion scripts\<close>

text \<open>
  Python strings are modelled as \<^typ>\<open>string\<close>. All patterns the scripts search for are
  ASCII, so the functions below behave the same on the UTF-8 bytes of a text as Python does
  on its code points. Two restrictions are made: white space is ASCII white space, and letter
  case is ASCII letter case.
\<close>

text \<open>
  \<^verbatim>\<open>s.replace(old, new)\<close>: the occurrences of \<open>old\<close> are found from the left and do
  not overlap. With an empty \<open>old\<close> Python inserts \<open>new\<close> before every character and at the
  end.
\<close>

fun replace :: "string \<Rightarrow> string \<Rightarrow> string \<Rightarrow> string" where
  "replace old new [] = (if old = [] then new else [])"
| "replace old new (c # cs) =
     (if old = [] then new @ c # replace old new cs
      else if prefix old (c # cs) then new @ replace old new (drop (length old - 1) cs)
      else c # replace old new cs)"

text \<open>\<^verbatim>\<open>sub in s\<close> and \<^verbatim>\<open>s.startswith(p)\<close>.\<close>

fun contains :: "string \<Rightarrow> string \<Rightarrow> bool" where
  "contains sub [] = (sub = [])"
| "contains sub (c # cs) = (prefix sub (c # cs) \<or> contains sub cs)"

abbreviation startswith :: "string \<Rightarrow> string \<Rightarrow> bool" where
  "startswith p s \<equiv> prefix p s"

text \<open>
  \<^verbatim>\<open>str.isspace\<close> on ASCII: tab, line feed, vertical tab, form feed, carriage return,
  the four separators 0x1C to 0x1F, and the space.
\<close>

definition is_space :: "char \<Rightarrow> bool" where
  "is_space c = (c \<in> set [CHR 0x09, CHR 0x0A, CHR 0x0B, CHR 0x0C, CHR 0x0D,
                             CHR 0x1C, CHR 0x1D, CHR 0x1E, CHR 0x1F, CHR 0x20])"

definition lstrip_with :: "(char \<Rightarrow> bool) \<Rightarrow> string \<Rightarrow> string" where
  "lstrip_with p s = dropWhile p s"

definition rstrip_with :: "(char \<Rightarrow> bool) \<Rightarrow> string \<Rightarrow> string" where
  "rstrip_with p s = rev (dropWhile p (rev s))"

text \<open>\<^verbatim>\<open>s.rstrip()\<close>, \<^verbatim>\<open>s.strip()\<close>, \<^verbatim>\<open>s.rstrip(chars)\<close> and \<^verbatim>\<open>s.strip(chars)\<close>.\<close>

definition rstrip :: "string \<Rightarrow> string" where
  "rstrip s = rstrip_with is_space s"

definition strip :: "string \<Rightarrow> string" where
  "strip s = rstrip_with is_space (lstrip_with is_space s)"

definition rstrip_chars :: "string \<Rightarrow> string \<Rightarrow> string" where
  "rstrip_chars chars s = rstrip_with (\<lambda>c. c \<in> set chars) s"

definition strip_chars :: "string \<Rightarrow> string \<Rightarrow> string" where
  "strip_chars chars s =
     rstrip_with (\<lambda>c. c \<in> set chars) (lstrip_with (\<lambda>c. c \<in> set chars) s)"

text \<open>
  \<^verbatim>\<open>s.split(sep)\<close> for a non-empty separator (Python raises \<^verbatim>\<open>ValueError\<close> on an
  empty one; no script passes one). The accumulator holds the current piece reversed.
\<close>

fun split_from :: "string \<Rightarrow> string \<Rightarrow> string \<Rightarrow> string list" where
  "split_from sep acc [] = [rev acc]"
| "split_from sep acc (c # cs) =
     (if prefix sep (c # cs) then rev acc # split_from sep [] (drop (length sep - 1) cs)
      else split_from sep (c # acc) cs)"

definition split :: "string \<Rightarrow> string \<Rightarrow> string list" where
  "split sep s = split_from sep [] s"

text \<open>\<^verbatim>\<open>s.split(sep, 1)\<close>: at most one cut, at the leftmost occurrence.\<close>

fun split_once_from :: "string \<Rightarrow> string \<Rightarrow> string \<Rightarrow> string list" where
  "split_once_from sep acc [] = [rev acc]"
| "split_once_from sep acc (c # cs) =
     (if prefix sep (c # cs) then [rev acc, drop (length sep - 1) cs]
      else split_once_from sep (c # acc) cs)"

definition split_once :: "string \<Rightarrow> string \<Rightarrow> string list" where
  "split_once sep s = split_once_from sep [] s"

text \<open>\<^verbatim>\<open>sep.join(xs)\<close>.\<close>

fun join :: "string \<Rightarrow> string list \<Rightarrow> string" where
  "join sep [] = []"
| "join sep [x] = x"
| "join sep (x # y # ys) = x @ sep @ join sep (y # ys)"

text \<open>\<^verbatim>\<open>s.lower()\<close> on ASCII letters.\<close>

definition ord :: "char \<Rightarrow> nat" where
  "ord c = of_char c"

definition is_upper :: "char \<Rightarrow> bool" where
  "is_upper c = (ord CHR ''A'' \<le> ord c \<and> ord c \<le> ord CHR ''Z'')"

definition is_lower :: "char \<Rightarrow> bool" where
  "is_lower c = (ord CHR ''a'' \<le> ord c \<and> ord c \<le> ord CHR ''z'')"

definition is_digit :: "char \<Rightarrow> bool" where
  "is_digit c = (ord CHR ''0'' \<le> ord c \<and> ord c \<le> ord CHR ''9'')"

definition lower_char :: "char \<Rightarrow> char" where
  "lower_char c = (if is_upper c then char_of (ord c + 32) else c)"

definition lower :: "string \<Rightarrow> string" where
  "lower s = map lower_char s"

text \<open>Decimal digits of a number, as an f-string prints it.\<close>

fun str_nat :: "nat \<Rightarrow> string" where
  "str_nat n =
     (if n < 10 then [char_of (48 + n)] else str_nat (n div 10) @ [char_of (48 + n mod 10)])"

declare str_nat.simps [simp del]

subsection \<open>The regular expressions of the scripts\<close>

text \<open>
  Nearly every pattern the scripts hand to \<^verbatim>\<open>re.sub\<close> has the shape
  \<^verbatim>\<open>pre([cls]+)suf\<close> or \<^verbatim>\<open>pre([cls]+?)suf\<close>: a literal, a non-empty run of characters
  of one class (the only group), a literal. In all of them the first character of \<open>suf\<close>
  lies outside the class, so the greedy and the lazy run both end at the first character
  outside the class, and the pattern matches at a position exactly when \<open>pre\<close> is there,
  at least one class character follows, and \<open>suf\<close> follows the longest run. With an empty
  \<open>suf\<close> the run is greedy in every script. \<^verbatim>\<open>re.sub\<close> takes the leftmost match,
  replaces it by what the callback gives for the group, and goes on behind it.
\<close>

function sub_span ::
  "string \<Rightarrow> (char \<Rightarrow> bool) \<Rightarrow> string \<Rightarrow> (string \<Rightarrow> string) \<Rightarrow> string \<Rightarrow> string" where
  "sub_span pre cls suf f [] = []"
| "sub_span pre cls suf f (c # cs) =
     (if prefix pre (c # cs)
         \<and> takeWhile cls (drop (length pre) (c # cs)) \<noteq> []
         \<and> prefix suf (dropWhile cls (drop (length pre) (c # cs)))
      then f (takeWhile cls (drop (length pre) (c # cs)))
             @ sub_span pre cls suf f
                 (drop (length suf) (dropWhile cls (drop (length pre) (c # cs))))
      else c # sub_span pre cls suf f cs)"
  by pat_completeness auto

lemma span_rest_shorter:
  assumes "takeWhile cls (drop n (c # cs)) \<noteq> []"
  shows "length (dropWhile cls (drop n (c # cs))) - m < Suc (length cs)"
proof -
  let ?r = "drop n (c # cs)"
  have "length (takeWhile cls ?r) + length (dropWhile cls ?r) = length ?r"
    by (metis length_append takeWhile_dropWhile_id)
  moreover have "0 < length (takeWhile cls ?r)"
    using assms by simp
  moreover have "length ?r \<le> Suc (length cs)"
    by simp
  ultimately show ?thesis
    by linarith
qed

termination sub_span
  by (relation "measure (\<lambda>(pre, cls, suf, f, s). length s)")
    (simp_all add: span_rest_shorter)

text \<open>
  The same scan when the callback stores the group in a list and returns a numbered
  placeholder: \<open>mk n\<close> is the placeholder for the entry stored at index \<open>n\<close>. The result is
  the rewritten text and the list.
\<close>

function sub_span_store ::
  "string \<Rightarrow> (char \<Rightarrow> bool) \<Rightarrow> string \<Rightarrow> (nat \<Rightarrow> string) \<Rightarrow> string list \<Rightarrow> string
     \<Rightarrow> string \<times> string list" where
  "sub_span_store pre cls suf mk store [] = ([], store)"
| "sub_span_store pre cls suf mk store (c # cs) =
     (if prefix pre (c # cs)
         \<and> takeWhile cls (drop (length pre) (c # cs)) \<noteq> []
         \<and> prefix suf (dropWhile cls (drop (length pre) (c # cs)))
      then (case sub_span_store pre cls suf mk
                   (store @ [takeWhile cls (drop (length pre) (c # cs))])
                   (drop (length suf) (dropWhile cls (drop (length pre) (c # cs)))) of
              (t, store') \<Rightarrow> (mk (length store) @ t, store'))
      else (case sub_span_store pre cls suf mk store cs of
              (t, store') \<Rightarrow> (c # t, store')))"
  by pat_completeness auto

termination sub_span_store
  by (relation "measure (\<lambda>(pre, cls, suf, mk, store, s). length s)")
    (simp_all add: span_rest_shorter)

text \<open>Character classes of the patterns.\<close>

definition is_alnum :: "char \<Rightarrow> bool" where
  "is_alnum c = (is_lower c \<or> is_upper c \<or> is_digit c)"

definition ref_char :: "char \<Rightarrow> bool" where
  \<comment> \<open>\<^verbatim>\<open>[a-zA-Z0-9_-]\<close>\<close>
  "ref_char c = (is_alnum c \<or> c = CHR ''_'' \<or> c = CHR ''-'')"

definition id_char :: "char \<Rightarrow> bool" where
  \<comment> \<open>\<^verbatim>\<open>[a-zA-Z0-9\-]\<close>\<close>
  "id_char c = (is_alnum c \<or> c = CHR ''-'')"

definition cite_char :: "char \<Rightarrow> bool" where
  \<comment> \<open>\<^verbatim>\<open>[a-zA-Z0-9\-:]\<close>\<close>
  "cite_char c = (is_alnum c \<or> c = CHR ''-'' \<or> c = CHR '':'')"

section \<open>convert\_ch17\_comprehensive.py: escape\_xml\<close>

text \<open>
  The function returns a falsy argument unchanged, substitutes the three reserved characters
  in the order ampersand, less-than, greater-than, and then rewrites the three doubly escaped
  entities, again in source order.
\<close>

definition escape_subst :: "string \<Rightarrow> string" where
  "escape_subst text =
     replace ''>'' ''&gt;'' (replace ''<'' ''&lt;'' (replace ''&'' ''&amp;'' text))"

definition escape_fix :: "string \<Rightarrow> string" where
  "escape_fix text =
     replace ''&amp;gt;'' ''&gt;''
       (replace ''&amp;lt;'' ''&lt;'' (replace ''&amp;amp;'' ''&amp;'' text))"

definition escape_xml :: "string \<Rightarrow> string" where
  "escape_xml text = (if text = [] then text else escape_fix (escape_subst text))"

section \<open>convert\_ch19.py\<close>

subsection \<open>Inline conversion\<close>

definition escape_xml19 :: "string \<Rightarrow> string" where
  "escape_xml19 text = replace ''>'' ''&gt;'' (replace ''<'' ''&lt;'' (replace ''&'' ''&amp;'' text))"

definition convert_inline_math :: "string \<Rightarrow> string" where
  "convert_inline_math text =
     sub_span ''$'' (\<lambda>c. c \<noteq> CHR ''$'') ''$'' (\<lambda>content. ''<m>'' @ content @ ''</m>'') text"

definition convert_display_math :: "string \<Rightarrow> string" where
  "convert_display_math text =
     sub_span ''$$'' (\<lambda>c. c \<noteq> CHR ''$'') ''$$''
       (\<lambda>content. ''<me>'' @ strip content @ ''</me>'') text"

definition convert_bold_italic :: "string \<Rightarrow> string" where
  "convert_bold_italic text =
     sub_span ''*'' (\<lambda>c. c \<noteq> CHR ''*'') ''*'' (\<lambda>g. ''<em>'' @ g @ ''</em>'')
       (sub_span ''**'' (\<lambda>c. c \<noteq> CHR ''*'') ''**'' (\<lambda>g. ''<alert>'' @ g @ ''</alert>'') text)"

definition xref19 :: "string \<Rightarrow> string \<Rightarrow> string" where
  \<open>xref19 kind g = ''<xref ref="'' @ kind @ g @ ''"/>''\<close>

definition convert_cross_refs :: "string \<Rightarrow> string" where
  "convert_cross_refs text =
     sub_span ''Chapter -@sec-'' ref_char [] (xref19 ''sec-'')
       (sub_span ''@tbl-'' ref_char [] (xref19 ''tbl-'')
         (sub_span ''@sec-'' ref_char [] (xref19 ''sec-'')
           (sub_span ''@fig-'' ref_char [] (xref19 ''fig-'') text)))"

definition convert_index :: "string \<Rightarrow> string" where
  "convert_index text =
     sub_span (CHR 0x5C # ''index{'') (\<lambda>c. c \<noteq> CHR ''}'') ''}''
       (\<lambda>g. ''<idx>'' @ g @ ''</idx>'') text"

definition process_line :: "string \<Rightarrow> string" where
  "process_line line =
     convert_bold_italic (convert_inline_math (convert_display_math
       (convert_index (convert_cross_refs line))))"

subsection \<open>State of the main loop\<close>

text \<open>
  The variables of \<^verbatim>\<open>main\<close> that are read somewhere. \<^verbatim>\<open>in_code_block\<close>,
  \<^verbatim>\<open>in_figure_block\<close>, \<^verbatim>\<open>in_callout\<close>, \<^verbatim>\<open>callout_type\<close> and \<^verbatim>\<open>callout_lines\<close> are
  only written; \<^verbatim>\<open>code_lines\<close> is local to the code-chunk branch.
\<close>

record conv19 =
  "output" :: "string list"
  figure_caption :: string
  figure_label :: string
  figure_width :: string
  section_level :: nat
  in_intro :: bool
  in_exercise :: bool
  exercise_lines :: "string list"

definition emit :: "string list \<Rightarrow> conv19 \<Rightarrow> conv19" where
  "emit xs st = st\<lparr>output := output st @ xs\<rparr>"

definition initial19 :: conv19 where
  \<open>initial19 =
     \<lparr>output = [''<?xml version="1.0" encoding="UTF-8" ?>\<newline>'', ''\<newline>'',
                 ''<chapter xml:id="ch19-inference-single-mean">\<newline>'',
                 ''  <title>Inference for a single mean</title>\<newline>'', ''\<newline>''],
      figure_caption = [], figure_label = [], figure_width = ''70%'',
      section_level = 0, in_intro = True, in_exercise = False, exercise_lines = []\<rparr>\<close>

subsection \<open>Headings\<close>

text \<open>
  \<^verbatim>\<open>line.split('{#')[1].rstrip('}') if '{#' in line else ''\<close>: the guard makes the
  second piece exist.
\<close>

definition heading_id :: "string \<Rightarrow> string" where
  "heading_id line =
     (if contains ''{#'' line then rstrip_chars ''}'' (split ''{#'' line ! 1) else [])"

definition heading_title :: "string \<Rightarrow> string \<Rightarrow> string" where
  "heading_title marks line = strip (hd (split ''{#'' (replace marks [] line)))"

definition close_open_sections :: "conv19 \<Rightarrow> conv19" where
  "close_open_sections st =
     (if section_level st = 2 then emit [''    </subsection>\<newline>'', ''  </section>\<newline>''] st
      else if section_level st = 1 then emit [''  </section>\<newline>''] st
      else st)"

text \<open>The branch for a line that starts with \<^verbatim>\<open>## \<close>; the flag says that the loop breaks.\<close>

definition section_heading :: "string \<Rightarrow> conv19 \<Rightarrow> bool \<times> conv19" where
  \<open>section_heading line st0 =
     (let st1 = (if in_intro st0 then (emit [''  <introduction>\<newline>''] st0)\<lparr>in_intro := False\<rparr>
                 else st0);
          st = close_open_sections st1
      in if contains ''Chapter review'' line then
           (False, (emit [''\<newline>  <section xml:id="sec-chp19-review">\<newline>'',
                          ''    <title>Chapter review</title>\<newline>''] st)\<lparr>section_level := 1\<rparr>)
         else if contains ''Exercises'' line \<and> contains ''#sec-chp19-exercises'' line then
           (True,
            emit [''\<newline>  <xi:include href="../exercises/ch19-exercises.ptx" xmlns:xi="http://www.w3.org/2001/XInclude"/>\<newline>'',
                  ''</chapter>\<newline>'']
              (if section_level st > 0 then
                 emit [''  </section>\<newline>'']
                   (if section_level st = 2 then emit [''    </subsection>\<newline>''] st else st)
               else st))
         else if contains ''Bootstrap confidence interval for a mean'' line then
           (False, (emit [''  </introduction>\<newline>\<newline>'',
                          ''  <section xml:id="sec-boot1mean">\<newline>'',
                          ''    <title>Bootstrap confidence interval for a mean</title>\<newline>''] st)
                     \<lparr>section_level := 1\<rparr>)
         else if contains ''Mathematical model for a mean'' line then
           (False, (emit [''  </section>\<newline>\<newline>'',
                          ''  <section xml:id="sec-one-mean-math">\<newline>'',
                          ''    <title>Mathematical model for a mean</title>\<newline>'']
                      (if section_level st = 2 then emit [''    </subsection>\<newline>''] st else st))
                     \<lparr>section_level := 1\<rparr>)
         else
           (False, (emit [if heading_id line \<noteq> []
                          then ''\<newline>  <section xml:id="'' @ heading_id line @ ''">\<newline>''
                          else ''\<newline>  <section>\<newline>'',
                          ''    <title>'' @ heading_title ''## '' line @ ''</title>\<newline>''] st)
                     \<lparr>section_level := 1\<rparr>))\<close>

definition subsection_heading :: "string \<Rightarrow> conv19 \<Rightarrow> conv19" where
  \<open>subsection_heading line st0 =
     (let st = (if section_level st0 = 2 then emit [''    </subsection>\<newline>''] st0 else st0)
      in (emit [if heading_id line \<noteq> []
                then ''\<newline>    <subsection xml:id="'' @ heading_id line @ ''">\<newline>''
                else ''\<newline>    <subsection>\<newline>'',
                ''      <title>'' @ heading_title ''### '' line @ ''</title>\<newline>''] st)
           \<lparr>section_level := 2\<rparr>)\<close>

subsection \<open>Exercise blocks\<close>

text \<open>
  The loop over \<^verbatim>\<open>exercise_lines\<close> when the block is closed: the emitted entries and the
  final value of \<^verbatim>\<open>in_solution\<close>. Both branches of the source's \<^verbatim>\<open>indent\<close> give ten
  spaces.
\<close>

fun exercise_body :: "bool \<Rightarrow> string list \<Rightarrow> string list \<times> bool" where
  "exercise_body in_solution [] = ([], in_solution)"
| "exercise_body in_solution (ex_line # rest) =
     (if ex_line = ''SOLUTION_START'' then
        (case exercise_body True rest of
           (out, fin) \<Rightarrow> (''        </statement>\<newline>'' # ''        <solution>\<newline>'' # out, fin))
      else if strip ex_line \<noteq> [] then
        (case exercise_body in_solution rest of
           (out, fin) \<Rightarrow>
             ((''          '' @ ''<p>'' @ process_line ex_line @ ''</p>\<newline>'') # out, fin))
      else exercise_body in_solution rest)"

definition close_exercise :: "string list \<Rightarrow> string list" where
  "close_exercise ex_lines =
     (case exercise_body False ex_lines of
        (out, fin) \<Rightarrow>
          [''\<newline>      <exercise>\<newline>'', ''        <statement>\<newline>''] @ out
          @ [if fin then ''        </solution>\<newline>'' else ''        </statement>\<newline>'',
             ''      </exercise>\<newline>''])"

subsection \<open>Code chunks\<close>

text \<open>
  The look-ahead over the metadata lines behind the fence (the loop on \<^verbatim>\<open>j\<close>), on the
  lines from \<^verbatim>\<open>lines[j]\<close> onwards. After the caption lines have been collected the source
  adds one to \<^verbatim>\<open>j\<close> again, so the line that ended the caption is not examined.
\<close>

definition caption_line :: "string \<Rightarrow> bool" where
  "caption_line l = (startswith ''#|  '' l \<or> startswith ''#|   '' l)"

function read_metadata :: "string list \<Rightarrow> conv19 \<Rightarrow> conv19" where
  "read_metadata [] st = st"
| "read_metadata (code_line # rest) st =
     (if startswith ''#|'' code_line then
        (let st1 = (if contains ''label:'' code_line
                    then st\<lparr>figure_label := strip (split ''label:'' code_line ! 1)\<rparr> else st);
             st2 = (if contains ''fig-cap:'' code_line
                    then st1\<lparr>figure_caption :=
                           join '' '' (map (\<lambda>l. strip (replace ''#|'' [] l))
                                          (takeWhile caption_line rest))\<rparr>
                    else st1);
             st3 = (if contains ''out-width:'' code_line
                    then st2\<lparr>figure_width := strip (split ''out-width:'' code_line ! 1)\<rparr>
                    else st2)
         in read_metadata
              (if contains ''fig-cap:'' code_line then drop 1 (dropWhile caption_line rest)
               else rest) st3)
      else st)"
  by pat_completeness auto

termination read_metadata
  by (relation "measure (\<lambda>(ls, st). length ls)")
    (auto simp add: length_dropWhile_le le_imp_less_Suc diff_le_self le_trans [OF diff_le_self])

text \<open>
  \<^verbatim>\<open>re.search(r'include_graphics\(["\']([^"\']+)["\']\)', code_line)\<close>: the group of the
  leftmost match, if there is one.
\<close>

definition quote_char :: "char \<Rightarrow> bool" where
  "quote_char c = (c = CHR 0x22 \<or> c = CHR 0x27)"

fun search_include_graphics :: "string \<Rightarrow> string option" where
  "search_include_graphics [] = None"
| "search_include_graphics (c # cs) =
     (let r = drop (length ''include_graphics('') (c # cs);
          grp = takeWhile (\<lambda>x. \<not> quote_char x) (drop 1 r);
          after = dropWhile (\<lambda>x. \<not> quote_char x) (drop 1 r)
      in if prefix ''include_graphics('' (c # cs) \<and> r \<noteq> [] \<and> quote_char (hd r) \<and> grp \<noteq> []
            \<and> after \<noteq> [] \<and> prefix '')'' (drop 1 after)
         then Some grp else search_include_graphics cs)"

text \<open>The loop over \<^verbatim>\<open>code_lines\<close> that looks for an image file name.\<close>

fun graphics_source :: "string \<Rightarrow> string list \<Rightarrow> string" where
  "graphics_source fig_source [] = fig_source"
| "graphics_source fig_source (code_line # rest) =
     graphics_source
       (if contains ''include_graphics'' code_line then
          (case search_include_graphics code_line of Some g \<Rightarrow> g | None \<Rightarrow> fig_source)
        else fig_source) rest"

definition fence_line :: "string \<Rightarrow> bool" where
  "fence_line l = startswith ''```'' l"

text \<open>
  The lines behind the opening fence (\<^verbatim>\<open>lines[i+1:]\<close>) are split into the metadata lines
  that are skipped, the chunk body up to the closing fence, and what follows.
\<close>

definition chunk_body :: "string list \<Rightarrow> string list" where
  "chunk_body rest = takeWhile (\<lambda>l. \<not> fence_line l) (dropWhile (startswith ''#|'') rest)"

definition chunk_code_lines :: "string list \<Rightarrow> string list" where
  "chunk_code_lines rest = filter (\<lambda>l. strip l \<noteq> []) (chunk_body rest)"

definition after_chunk :: "string list \<Rightarrow> string list" where
  "after_chunk rest =
     (let r = dropWhile (\<lambda>l. \<not> fence_line l) (dropWhile (startswith ''#|'') rest)
      in if r \<noteq> [] \<and> fence_line (hd r) then tl r else r)"

definition emit_chunk :: "string list \<Rightarrow> conv19 \<Rightarrow> conv19" where
  \<open>emit_chunk code_lines st =
     (if startswith ''fig-'' (figure_label st) then
        (let fig_id = figure_label st;
             fig_source0 = replace ''fig-'' [] (figure_label st) @ ''.png'';
             fig_source = (if contains ''include_graphics'' (join ''\<newline>'' code_lines)
                           then graphics_source fig_source0 code_lines else fig_source0)
         in (emit ([''\<newline>      <figure xml:id="'' @ fig_id @ ''">\<newline>'']
                   @ (if figure_caption st \<noteq> []
                      then [''        <caption>'' @ process_line (figure_caption st)
                            @ ''</caption>\<newline>'']
                      else [])
                   @ [''        <image source="'' @ fig_source @ ''" width="'' @ figure_width st
                      @ ''"/>\<newline>'',
                      ''      </figure>\<newline>'']) st)
              \<lparr>figure_label := [], figure_caption := [], figure_width := ''70%''\<rparr>)
      else if code_lines \<noteq> [] then
        emit ([''\<newline>      <listing>\<newline>'']
              @ (if figure_caption st \<noteq> []
                 then [''        <caption>'' @ process_line (figure_caption st) @ ''</caption>\<newline>'']
                 else [])
              @ [''        <program language="r"><input>\<newline>'']
              @ map (\<lambda>code_line. escape_xml19 code_line @ ''\<newline>'') code_lines
              @ [''        </input></program>\<newline>'', ''      </listing>\<newline>'']) st
      else st)\<close>

subsection \<open>Paragraphs\<close>

definition regular_paragraph :: "string \<Rightarrow> conv19 \<Rightarrow> conv19" where
  "regular_paragraph line st =
     emit [(if in_intro st then ''    ''
            else if section_level st = 2 then ''      ''
            else if section_level st = 1 then ''    ''
            else ''  '') @ ''<p>'' @ process_line line @ ''</p>\<newline>''] st"

subsection \<open>The main loop\<close>

text \<open>
  One pass of the \<^verbatim>\<open>while\<close> loop at index \<open>i\<close>: \<open>raw\<close> is \<^verbatim>\<open>lines[i]\<close> and \<open>rest\<close> is
  \<^verbatim>\<open>lines[i+1:]\<close>. The result is the break flag, the lines from the new index onwards, and
  the new state. The branches are tried in the order of the source.
\<close>

definition step19 :: "nat \<Rightarrow> string \<Rightarrow> string list \<Rightarrow> conv19 \<Rightarrow> bool \<times> string list \<times> conv19" where
  "step19 i raw rest st =
     (let line = rstrip raw in
      if i < 5 \<and> (startswith ''---'' line \<or> contains ''output:'' line
                   \<or> contains ''editor_options'' line \<or> contains ''chunk_output_type'' line)
      then (False, rest, st)
      else if contains ''```{r}'' line \<and> i < 30
      then (False, drop 1 (dropWhile (\<lambda>l. \<not> contains ''```'' l) rest), st)
      else if startswith ''# Inference for a single mean'' line
      then (False, rest, st)
      else if startswith ''## '' line \<and> \<not> startswith ''### '' line
      then (case section_heading line st of (brk, st') \<Rightarrow> (brk, rest, st'))
      else if startswith ''### '' line
      then (False, rest, subsection_heading line st)
      else if startswith ''::: {.'' line \<and> contains ''workedexample'' line
              \<or> contains ''guidedpractice'' line
      then (False, rest, st\<lparr>in_exercise := True, exercise_lines := []\<rparr>)
      else if line = ''## Solution'' \<or> (startswith ''::: {'' line \<and> contains ''solution'' (lower line))
      then (False, rest,
            if in_exercise st then st\<lparr>exercise_lines := exercise_lines st @ [''SOLUTION_START'']\<rparr>
            else st)
      else if in_exercise st \<and> line = '':::''
      then (False, rest,
            (emit (close_exercise (exercise_lines st)) st)
              \<lparr>in_exercise := False, exercise_lines := []\<rparr>)
      else if in_exercise st
      then (False, rest, st\<lparr>exercise_lines := exercise_lines st @ [line]\<rparr>)
      else if startswith ''```{r}'' line \<or> startswith ''```{r '' line
      then (False, after_chunk rest, emit_chunk (chunk_code_lines rest) (read_metadata rest st))
      else if contains ''::: {.chapterintro'' line
      then (False, rest,
            if \<not> in_intro st then (emit [''  <introduction>\<newline>''] st)\<lparr>in_intro := True\<rparr>
            else st)
      else if line = '':::'' \<and> in_intro st \<and> i > 20
      then (False, rest, st)
      else if strip line \<noteq> [] \<and> \<not> startswith ''#|'' line \<and> \<not> startswith ''```'' line
      then (False, rest, regular_paragraph line st)
      else (False, rest, st))"

lemma length_dropWhile_minus: "length (dropWhile P xs) - n \<le> length xs"
  using length_dropWhile_le [of P xs] by linarith

lemma length_after_chunk: "length (after_chunk rest) \<le> length rest"
proof -
  let ?r = "dropWhile (\<lambda>l. \<not> fence_line l) (dropWhile (startswith ''#|'') rest)"
  have "length ?r \<le> length rest"
    using length_dropWhile_le [of "\<lambda>l. \<not> fence_line l" "dropWhile (startswith ''#|'') rest"]
      length_dropWhile_le [of "startswith ''#|''" rest] by linarith
  moreover have "length (tl ?r) \<le> length ?r"
    by simp
  ultimately show ?thesis
    by (simp add: after_chunk_def Let_def del: length_tl)
qed

lemma step19_shrinks:
  "step19 i raw rest st = (brk, rest', st') \<Longrightarrow> length rest' \<le> length rest"
  by (auto simp add: step19_def Let_def length_dropWhile_minus length_after_chunk
      split: if_splits prod.splits)

text \<open>
  The loop, on the index \<open>i\<close> and the lines \<^verbatim>\<open>lines[i:]\<close>. The index advances by the number
  of lines a pass consumed.
\<close>

function main_loop :: "nat \<Rightarrow> string list \<Rightarrow> conv19 \<Rightarrow> conv19" where
  "main_loop i [] st = st"
| "main_loop i (raw # rest) st =
     (case step19 i raw rest st of
        (brk, rest', st') \<Rightarrow>
          if brk then st' else main_loop (i + (Suc (length rest) - length rest')) rest' st')"
  by pat_completeness auto

termination main_loop
  by (relation "measure (\<lambda>(i, ls, st). length ls)")
    (auto dest: step19_shrinks [OF sym] simp add: le_imp_less_Suc)

text \<open>What follows the loop: open sections are closed, and the chapter if needed.\<close>

definition finish19 :: "conv19 \<Rightarrow> string list" where
  "finish19 st0 =
     (let st = close_open_sections st0
      in if \<not> contains ''</chapter>'' (concat (drop (length (output st) - 5) (output st)))
         then output st @ [''</chapter>\<newline>''] else output st)"

text \<open>The list handed to \<^verbatim>\<open>writelines\<close>, for the lines \<^verbatim>\<open>readlines\<close> gave.\<close>

definition convert19 :: "string list \<Rightarrow> string list" where
  "convert19 lines = finish19 (main_loop 0 lines initial19)"

section \<open>convert\_ch17\_complete.py\<close>

subsection \<open>convert\_inline\<close>

text \<open>
  The loops that put the stored spans back: entry \<open>i\<close> of the list replaces the placeholder
  numbered \<open>i\<close>, in the order of the list.
\<close>

fun restore_spans :: "string \<Rightarrow> string \<Rightarrow> string \<Rightarrow> nat \<Rightarrow> string list \<Rightarrow> string \<Rightarrow> string" where
  "restore_spans name opn cls i [] text = text"
| "restore_spans name opn cls i (x # xs) text =
     restore_spans name opn cls (Suc i) xs
       (replace (''__'' @ name @ str_nat i @ ''__'') (opn @ x @ cls) text)"

definition xref17 :: "string \<Rightarrow> string \<Rightarrow> string" where
  \<open>xref17 kind g = ''<xref ref="'' @ kind @ g @ ''" />''\<close>

definition convert_inline :: "string \<Rightarrow> string" where
  "convert_inline text =
     (if text = [] then text
      else
        (case sub_span_store ''$'' (\<lambda>c. c \<noteq> CHR ''$'') ''$''
                (\<lambda>n. ''__MATH'' @ str_nat n @ ''__'') [] text of
           (text1, math_exprs) \<Rightarrow>
        (case sub_span_store ''`'' (\<lambda>c. c \<noteq> CHR ''`'') ''`''
                (\<lambda>n. ''__CODE'' @ str_nat n @ ''__'') [] text1 of
           (text2, code_spans) \<Rightarrow>
        (let text3 = sub_span ''**'' (\<lambda>c. c \<noteq> CHR ''*'') ''**''
                       (\<lambda>g. ''<alert>'' @ g @ ''</alert>'') text2;
             text4 = sub_span ''*'' (\<lambda>c. c \<noteq> CHR ''*'') ''*''
                       (\<lambda>g. ''<em>'' @ g @ ''</em>'') text3;
             text5 = restore_spans ''CODE'' ''<c>'' ''</c>'' 0 code_spans text4;
             text6 = restore_spans ''MATH'' ''<m>'' ''</m>'' 0 math_exprs text5;
             text7 = sub_span ''@fig-'' id_char [] (xref17 ''fig-'') text6;
             text8 = sub_span ''@tbl-'' id_char [] (xref17 ''tbl-'') text7;
             text9 = sub_span ''@sec-'' id_char [] (xref17 ''sec-'') text8;
             text10 = sub_span ''[Chapter -@sec-'' id_char '']'' (xref17 ''sec-'') text9
         in sub_span ''[@'' cite_char '']'' (xref17 ''biblio-'') text10))))"

subsection \<open>handle\_guided\_practice\<close>

text \<open>
  The scanning loop: \<open>prev\<close> is \<^verbatim>\<open>lines[i-1]\<close> and the list is \<^verbatim>\<open>lines[i:]\<close>; the index is
  at least one here, so the test \<^verbatim>\<open>i > 0\<close> holds. The result is \<^verbatim>\<open>block_lines\<close> and the
  lines from the index where the loop stopped.
\<close>

fun scan_block :: "string \<Rightarrow> string list \<Rightarrow> string list \<times> string list" where
  "scan_block prev [] = ([], [])"
| "scan_block prev (l # ls) =
     (if strip l = '':::'' \<and> \<not> contains '':::'' prev then ([], l # ls)
      else (case scan_block l ls of (block_lines, left) \<Rightarrow> (l # block_lines, left)))"

text \<open>
  \<^verbatim>\<open>re.split(r'::: \{\.callout-note[^\}]*\}', block_text)\<close>: a match is the literal, any
  characters other than a closing brace, and a closing brace. The accumulator holds the
  current piece reversed.
\<close>

function split_callout :: "string \<Rightarrow> string \<Rightarrow> string list" where
  "split_callout acc [] = [rev acc]"
| "split_callout acc (c # cs) =
     (if prefix ''::: {.callout-note'' (c # cs)
         \<and> dropWhile (\<lambda>x. x \<noteq> CHR ''}'') (drop (length ''::: {.callout-note'') (c # cs)) \<noteq> []
      then rev acc
           # split_callout []
               (tl (dropWhile (\<lambda>x. x \<noteq> CHR ''}'') (drop (length ''::: {.callout-note'') (c # cs))))
      else split_callout (c # acc) cs)"
  by pat_completeness auto

termination split_callout
proof (relation "measure (\<lambda>(acc, s). length s)", goal_cases)
  case 1
  show ?case by simp
next
  case (2 acc c cs)
  let ?r = "drop (length ''::: {.callout-note'') (c # cs)"
  have "length (dropWhile (\<lambda>x. x \<noteq> CHR ''}'') ?r) \<le> length ?r"
    by (rule length_dropWhile_le)
  moreover have "length ?r \<le> length cs"
    by simp
  ultimately show ?case
    by simp
next
  case 3
  show ?case by simp
qed

text \<open>
  \<^verbatim>\<open>re.sub(r':::$', '', s)\<close>: without the multi-line flag the dollar matches at the end of
  the string and before a line feed that ends the string.
\<close>

definition drop_final_colons :: "string \<Rightarrow> string" where
  "drop_final_colons s =
     (if prefix (rev '':::'') (rev s) then rev (drop 3 (rev s))
      else if prefix (rev '':::\<newline>'') (rev s) then rev (drop 4 (rev s)) @ ''\<newline>''
      else s)"

definition block_statement :: "string \<Rightarrow> string" where
  "block_statement block_text =
     (if contains ''::: {.callout-note'' block_text
      then strip (hd (split_callout [] block_text))
      else strip block_text)"

definition block_solution :: "string \<Rightarrow> string" where
  "block_solution block_text =
     (if contains ''::: {.callout-note'' block_text \<and> length (split_callout [] block_text) > 1
         \<and> contains ''## Solution'' (split_callout [] block_text ! 1)
      then strip (drop_final_colons
                    (strip (split_once ''## Solution'' (split_callout [] block_text ! 1) ! 1)))
      else [])"

text \<open>
  \<^verbatim>\<open>add_line\<close> with the current indentation level \<open>ind\<close> (the top of \<^verbatim>\<open>indent_stack\<close>),
  which the function does not change.
\<close>

definition add_line :: "nat \<Rightarrow> string \<Rightarrow> string" where
  "add_line ind line = concat (replicate ind ''  '') @ line"

definition emit_exercise17 :: "nat \<Rightarrow> string \<Rightarrow> string \<Rightarrow> string list" where
  "emit_exercise17 ind statement solution =
     map (add_line ind)
       ([''<exercise>'', ''  <statement>'', ''    <p>'', ''      '' @ convert_inline statement,
         ''    </p>'', ''  </statement>'']
        @ (if solution \<noteq> []
           then [''  <solution>'', ''    <p>'', ''      '' @ convert_inline solution, ''    </p>'',
                 ''  </solution>'']
           else [])
        @ [''</exercise>''])"

text \<open>
  The function at index \<open>i\<close>: \<open>opening\<close> is \<^verbatim>\<open>lines[i]\<close> and \<open>rest\<close> is \<^verbatim>\<open>lines[i+1:]\<close>. The
  result is what is appended to \<^verbatim>\<open>self.output\<close> and the lines from the returned index
  onwards.
\<close>

definition handle_guided_practice ::
  "nat \<Rightarrow> string \<Rightarrow> string list \<Rightarrow> string list \<times> string list" where
  "handle_guided_practice ind opening rest =
     (case scan_block opening rest of
        (block_lines, left) \<Rightarrow>
          (emit_exercise17 ind (block_statement (join ''\<newline>'' block_lines))
             (block_solution (join ''\<newline>'' block_lines)),
           drop 1 left))"

section \<open>convert\_ch24\_inf\_model\_slr.py: process\_code\_block\<close>

text \<open>
  The function takes the lines between the fences of a chunk. Its first loop sorts them into
  the label, the caption, the sub-captions, the alternative text and the code; the record
  below holds the variables of that loop. The copy of the function in
  convert\_ch24\_enhanced.py names the images in the same way.
\<close>

record chunk =
  label :: string
  caption_lines :: "string list"
  subcap_lines :: "string list"
  alt_lines :: "string list"
  code_content :: "string list"
  in_caption :: bool
  in_subcap :: bool
  in_alt :: bool

definition empty_chunk :: chunk where
  "empty_chunk =
     \<lparr>label = [], caption_lines = [], subcap_lines = [], alt_lines = [], code_content = [],
      in_caption = False, in_subcap = False, in_alt = False\<rparr>"

definition escape_xml24 :: "string \<Rightarrow> string" where
  "escape_xml24 text = replace ''>'' ''&gt;'' (replace ''<'' ''&lt;'' (replace ''&'' ''&amp;'' text))"

definition layout_key :: "string \<Rightarrow> bool" where
  "layout_key line =
     list_ex (\<lambda>x. contains x line)
       [''fig-width:'', ''fig-asp:'', ''out-width:'', ''layout-ncol:'', ''fig-height:'']"

text \<open>
  One pass of the loop over \<^verbatim>\<open>code_lines\<close>. \<^verbatim>\<open>line.split(':', 1)[1]\<close> exists where it is
  used, because the line holds a key that ends in a colon.
\<close>

definition sort_line :: "chunk \<Rightarrow> string \<Rightarrow> chunk" where
  "sort_line m raw =
     (let line = rstrip raw in
      if contains ''#| label:'' line then
        m\<lparr>label := strip (split_once '':'' line ! 1)\<rparr>
      else if contains ''#| fig-cap:'' line then
        (let cap_text = strip (split_once '':'' line ! 1);
             m' = m\<lparr>in_caption := True, in_subcap := False, in_alt := False\<rparr>
         in if cap_text \<noteq> [] \<and> cap_text \<notin> set [[], ''|'']
            then m'\<lparr>caption_lines := caption_lines m' @ [cap_text]\<rparr> else m')
      else if contains ''#| fig-subcap:'' line then
        m\<lparr>in_subcap := True, in_caption := False, in_alt := False\<rparr>
      else if contains ''#| fig-alt:'' line then
        (let alt_text = strip (split_once '':'' line ! 1);
             m' = m\<lparr>in_alt := True, in_caption := False, in_subcap := False\<rparr>
         in if alt_text \<noteq> [] \<and> alt_text \<notin> set [[], ''|'']
            then m'\<lparr>alt_lines := alt_lines m' @ [alt_text]\<rparr> else m')
      else if startswith ''#|'' line \<and> (in_caption m \<or> in_subcap m \<or> in_alt m) then
        (if layout_key line then m\<lparr>in_caption := False, in_subcap := False, in_alt := False\<rparr>
         else
           (let content = strip (replace ''#|'' [] line)
            in if content \<noteq> [] \<and> content \<notin> set [[], ''|'', ''-''] then
                 (if in_caption m then m\<lparr>caption_lines := caption_lines m @ [content]\<rparr>
                  else if in_subcap m then m\<lparr>subcap_lines := subcap_lines m @ [content]\<rparr>
                  else if in_alt m then m\<lparr>alt_lines := alt_lines m @ [content]\<rparr>
                  else m)
               else m))
      else if \<not> startswith ''#|'' line then
        m\<lparr>code_content := code_content m @ [line]\<rparr>
      else m)"

definition sort_lines :: "string list \<Rightarrow> chunk" where
  "sort_lines code_lines = foldl sort_line empty_chunk code_lines"

text \<open>The listing: the code lines that are not blank, escaped, one entry each.\<close>

definition listing_part :: "chunk \<Rightarrow> string list" where
  \<open>listing_part m =
     (let code = filter (\<lambda>l. strip l \<noteq> []) (code_content m)
      in if code \<noteq> [] then
           [if label m \<noteq> [] then ''<listing xml:id="listing-'' @ label m @ ''">\<newline>''
            else ''<listing>\<newline>'',
            if label m \<noteq> [] \<and> caption_lines m \<noteq> []
            then ''  <caption><c>R</c> code to generate <xref ref="'' @ label m
                 @ ''" /></caption>\<newline>''
            else ''  <caption><c>R</c> code</caption>\<newline>'',
            ''  <program language="r">\<newline>'', ''    <input>\<newline>'']
           @ map (\<lambda>line. escape_xml24 line @ ''\<newline>'') code
           @ [''    </input>\<newline>'', ''  </program>\<newline>'', ''</listing>\<newline>\<newline>'']
         else [])\<close>

text \<open>The loop over \<^verbatim>\<open>enumerate(subcap_lines, 1)\<close>; \<open>i\<close> is the running index.\<close>

fun subfigures :: "string \<Rightarrow> nat \<Rightarrow> string list \<Rightarrow> string list" where
  \<open>subfigures lbl i [] = []\<close>
| \<open>subfigures lbl i (subcap # more_subcaps) =
     [''    <figure xml:id="'' @ lbl @ ''-'' @ str_nat i @ ''">\<newline>'',
      ''      <caption>'' @ strip_chars ''- '' subcap @ ''</caption>\<newline>'',
      ''      <image source="images/'' @ (lbl @ ''-'' @ str_nat i @ ''.png'')
        @ ''" width="90%" />\<newline>'',
      ''    </figure>\<newline>'']
     @ subfigures lbl (Suc i) more_subcaps\<close>

text \<open>
  The figure. The caption text goes through \<^verbatim>\<open>convert_text_formatting\<close> and
  \<^verbatim>\<open>convert_cross_references\<close>; their composition is the parameter \<open>markup\<close>, and nothing
  below depends on what it does to the caption.
\<close>

definition figure_part :: "(string \<Rightarrow> string) \<Rightarrow> chunk \<Rightarrow> string list" where
  \<open>figure_part markup m =
     (if label m \<noteq> [] \<and> caption_lines m \<noteq> [] then
        (let cap_text = markup (join '' '' (caption_lines m)) in
         if subcap_lines m \<noteq> [] then
           [''<figure xml:id="'' @ label m @ ''">\<newline>'',
            ''  <caption>'' @ cap_text @ ''</caption>\<newline>'',
            ''  <sidebyside widths="45% 45%">\<newline>'']
           @ subfigures (label m) 1 (subcap_lines m)
           @ [''  </sidebyside>\<newline>'', ''</figure>\<newline>\<newline>'']
         else
           [''<figure xml:id="'' @ label m @ ''">\<newline>'',
            ''  <caption>'' @ cap_text @ ''</caption>\<newline>'',
            ''  <image source="images/'' @ (label m @ ''-1.png'') @ ''" width="70%" />\<newline>'',
            ''</figure>\<newline>\<newline>''])
      else [])\<close>

text \<open>The list \<^verbatim>\<open>result\<close>, and the string the function returns.\<close>

definition code_block_result :: "(string \<Rightarrow> string) \<Rightarrow> string list \<Rightarrow> string list" where
  "code_block_result markup code_lines =
     listing_part (sort_lines code_lines) @ figure_part markup (sort_lines code_lines)"

definition process_code_block :: "(string \<Rightarrow> string) \<Rightarrow> string list \<Rightarrow> string" where
  "process_code_block markup code_lines = concat (code_block_result markup code_lines)"

section \<open>Identifiers synthesized from titles\<close>

text \<open>
  convert\_ch17\_full.py, worked examples: the title comes from the \<^verbatim>\<open>data-latex\<close> attribute
  of the opening line, and the identifier is
  \<^verbatim>\<open>re.sub(r'[^a-z0-9]+', '-', ex_title.lower()).strip('-') if ex_title else 'example'\<close>,
  written behind \<^verbatim>\<open>ex-\<close>.
\<close>

definition lower_alnum :: "char \<Rightarrow> bool" where
  \<comment> \<open>\<^verbatim>\<open>[a-z0-9]\<close>\<close>
  "lower_alnum c = (is_lower c \<or> is_digit c)"

definition example_slug :: "string \<Rightarrow> string" where
  "example_slug ex_title =
     (if ex_title \<noteq> []
      then strip_chars ''-'' (sub_span [] (\<lambda>c. \<not> lower_alnum c) [] (\<lambda>g. ''-'') (lower ex_title))
      else ''example'')"

definition example_id :: "string \<Rightarrow> string" where
  "example_id ex_title = ''ex-'' @ example_slug ex_title"

text \<open>
  convert\_ch17\_full.py, sections and subsections: the second group of the heading pattern
  is the explicit identifier, \<open>None\<close> when the heading has none.
\<close>

definition section_id17 :: "string option \<Rightarrow> string" where
  "section_id17 group2 = (case group2 of Some g \<Rightarrow> (if g \<noteq> [] then g else ''sec-unknown'')
                          | None \<Rightarrow> ''sec-unknown'')"

definition subsection_id17 :: "string option \<Rightarrow> string" where
  "subsection_id17 group2 = (case group2 of Some g \<Rightarrow> (if g \<noteq> [] then g else ''subsec-unknown'')
                             | None \<Rightarrow> ''subsec-unknown'')"

text \<open>
  convert\_ch24\_enhanced.py, headings without an identifier: the title is the line behind
  the marks, stripped, and the identifier is built from its lower-case form by three
  replacements.
\<close>

definition title_slug24 :: "string \<Rightarrow> string" where
  "title_slug24 title = replace '','' [] (replace '':'' [] (replace '' '' ''-'' (lower title)))"

definition section_id24 :: "string \<Rightarrow> string" where
  "section_id24 line = ''sec-'' @ title_slug24 (strip (drop 3 line))"

definition subsection_id24 :: "string \<Rightarrow> string" where
  "subsection_id24 line = ''subsec-'' @ title_slug24 (strip (drop 4 line))"

text \<open>
  The rule of the specification, in its words: lower-case the title, replace every run of
  characters that are not alphanumeric by one hyphen, trim the hyphens at both ends. The
  flag of \<open>hyphenate_runs\<close> says that the scan is inside such a run, whose hyphen has been
  written.
\<close>

fun hyphenate_runs :: "bool \<Rightarrow> string \<Rightarrow> string" where
  "hyphenate_runs in_run [] = []"
| "hyphenate_runs in_run (c # cs) =
     (if is_alnum c then c # hyphenate_runs False cs
      else if in_run then hyphenate_runs True cs
      else CHR ''-'' # hyphenate_runs True cs)"

definition trim_hyphens :: "string \<Rightarrow> string" where
  "trim_hyphens s =
     rev (dropWhile (\<lambda>c. c = CHR ''-'') (rev (dropWhile (\<lambda>c. c = CHR ''-'') s)))"

definition spec_fallback_id :: "string \<Rightarrow> string" where
  "spec_fallback_id title = trim_hyphens (hyphenate_runs False (lower title))"

section \<open>Auxiliary notions for the proofs\<close>

subsection \<open>Entity view of an escaped text\<close>

text \<open>
  For the proof an escaped text is read as a sequence of items: an ordinary character, or one
  of the three entities.
\<close>

datatype item = Plain char | EAmp | ELt | EGt

fun spell :: "item \<Rightarrow> string" where
  "spell (Plain c) = [c]"
| "spell EAmp = ''&amp;''"
| "spell ELt = ''&lt;''"
| "spell EGt = ''&gt;''"

definition render :: "item list \<Rightarrow> string" where
  "render its = concat (map spell its)"

definition reserved :: "char \<Rightarrow> bool" where
  "reserved c = (c = CHR ''&'' \<or> c = CHR ''<'' \<or> c = CHR ''>'')"

fun tidy_item :: "item \<Rightarrow> bool" where
  "tidy_item (Plain c) = (\<not> reserved c)"
| "tidy_item _ = True"

definition tidy :: "item list \<Rightarrow> bool" where
  "tidy its = list_all tidy_item its"

fun item_of :: "char \<Rightarrow> item" where
  "item_of c = (if c = CHR ''&'' then EAmp else if c = CHR ''<'' then ELt
                else if c = CHR ''>'' then EGt else Plain c)"

text \<open>Item-level picture of replacing \<open>&amp;\<close> followed by \<open>nm\<close> with the entity \<open>out\<close>.\<close>

fun fold_ent :: "string \<Rightarrow> item \<Rightarrow> item list \<Rightarrow> item list" where
  "fold_ent nm out [] = []"
| "fold_ent nm out (x # xs) =
     (if x = EAmp \<and> prefix (map Plain nm) xs then out # fold_ent nm out (drop (length nm) xs)
      else x # fold_ent nm out xs)"

fun free_of :: "string \<Rightarrow> item list \<Rightarrow> bool" where
  "free_of nm [] = True"
| "free_of nm (x # xs) = (\<not> (x = EAmp \<and> prefix (map Plain nm) xs) \<and> free_of nm xs)"

text \<open>Item-level picture of escaping a rendered text once more.\<close>

fun again :: "item \<Rightarrow> item list" where
  "again (Plain c) = [Plain c]"
| "again EAmp = EAmp # map Plain ''amp;''"
| "again ELt = EAmp # map Plain ''lt;''"
| "again EGt = EAmp # map Plain ''gt;''"

fun again1 :: "item \<Rightarrow> item list" where
  "again1 ELt = EAmp # map Plain ''lt;''"
| "again1 EGt = EAmp # map Plain ''gt;''"
| "again1 x = [x]"

fun again2 :: "item \<Rightarrow> item list" where
  "again2 EGt = EAmp # map Plain ''gt;''"
| "again2 x = [x]"

text \<open>
  Notions used to state what \<^verbatim>\<open>process_code_block\<close> emits: the lines of the chunk that
  reach the listing, the listing's frame, the image entries of a figure, and the entries
  between the opening and the closing \<^verbatim>\<open>input\<close> tag of a result.
\<close>

definition code_line :: "string \<Rightarrow> bool" where
  "code_line l =
     (\<not> contains ''#| label:'' l \<and> \<not> contains ''#| fig-cap:'' l
      \<and> \<not> contains ''#| fig-subcap:'' l \<and> \<not> contains ''#| fig-alt:'' l
      \<and> \<not> startswith ''#|'' l)"

definition kept_lines :: "string list \<Rightarrow> string list" where
  "kept_lines code_lines = filter (\<lambda>l. strip l \<noteq> []) (filter code_line (map rstrip code_lines))"

definition listing_head :: "chunk \<Rightarrow> string list" where
  \<open>listing_head m =
     [if label m \<noteq> [] then ''<listing xml:id="listing-'' @ label m @ ''">\<newline>''
      else ''<listing>\<newline>'',
      if label m \<noteq> [] \<and> caption_lines m \<noteq> []
      then ''  <caption><c>R</c> code to generate <xref ref="'' @ label m @ ''" /></caption>\<newline>''
      else ''  <caption><c>R</c> code</caption>\<newline>'',
      ''  <program language="r">\<newline>'', ''    <input>\<newline>'']\<close>

definition listing_foot :: "string list" where
  "listing_foot = [''    </input>\<newline>'', ''  </program>\<newline>'', ''</listing>\<newline>\<newline>'']"

definition input_entries :: "string list \<Rightarrow> string list" where
  "input_entries result =
     takeWhile (\<lambda>e. e \<noteq> ''    </input>\<newline>'')
       (drop 1 (dropWhile (\<lambda>e. e \<noteq> ''    <input>\<newline>'') result))"

definition image_entry :: "string \<Rightarrow> bool" where
  \<open>image_entry e = startswith ''<image source="'' (dropWhile (\<lambda>c. c = CHR '' '') e)\<close>

definition panel_image :: "string \<Rightarrow> nat \<Rightarrow> string" where
  \<open>panel_image lbl n =
     ''      <image source="images/'' @ lbl @ ''-'' @ str_nat n @ ''.png" width="90%" />\<newline>''\<close>

definition single_image :: "string \<Rightarrow> string" where
  \<open>single_image lbl = ''  <image source="images/'' @ lbl @ ''-1.png" width="70%" />\<newline>''\<close>

text \<open>
  For convert\_ch19.py: a heading of level one that takes the generic branch, and what is
  written before a new section is opened.
\<close>

definition generic_heading :: "string \<Rightarrow> bool" where
  "generic_heading line =
     (startswith ''## '' line \<and> \<not> contains ''Chapter review'' line
      \<and> \<not> (contains ''Exercises'' line \<and> contains ''#sec-chp19-exercises'' line)
      \<and> \<not> contains ''Bootstrap confidence interval for a mean'' line
      \<and> \<not> contains ''Mathematical model for a mean'' line)"

definition heading_preamble :: "conv19 \<Rightarrow> string list" where
  "heading_preamble st =
     (if in_intro st then [''  <introduction>\<newline>''] else [])
     @ (if section_level st = 2 then [''    </subsection>\<newline>'', ''  </section>\<newline>'']
        else if section_level st = 1 then [''  </section>\<newline>'']
        else [])"

section \<open>Idempotence of escape\_xml\<close>

subsection \<open>Replacement of a single character\<close>

lemma replace_single:
  "replace [c] new s = concat (map (\<lambda>x. if x = c then new else [x]) s)"
  by (induction s) auto

lemma escape_subst_items: "escape_subst t = render (map item_of t)"
  by (induction t) (simp_all add: escape_subst_def render_def replace_single)

lemma tidy_item_of: "tidy (map item_of t)"
  by (induction t) (simp_all add: tidy_def reserved_def)

subsection \<open>Replacement of a doubly escaped entity\<close>

lemma render_Cons: "render (x # xs) = spell x @ render xs"
  by (simp add: render_def)

lemma render_Nil: "render [] = []"
  by (simp add: render_def)

lemma render_append: "render (xs @ ys) = render xs @ render ys"
  by (simp add: render_def)

lemma render_Plain: "render (map Plain nm) = nm"
  by (induction nm) (simp_all add: render_def)

lemma prefix_render:
  "CHR ''&'' \<notin> set nm \<Longrightarrow> prefix nm (render xs) \<longleftrightarrow> prefix (map Plain nm) xs"
proof (induction nm arbitrary: xs)
  case Nil
  then show ?case by simp
next
  case (Cons n nm)
  show ?case
  proof (cases xs)
    case Nil
    then show ?thesis by (simp add: render_Nil)
  next
    case (Cons x xs')
    with Cons.prems Cons.IH [of xs'] show ?thesis
      by (cases x) (auto simp add: render_Cons)
  qed
qed

lemma drop_render:
  assumes "prefix (map Plain nm) xs"
  shows "drop (length nm) (render xs) = render (drop (length nm) xs)"
proof -
  from assms obtain zs where "xs = map Plain nm @ zs"
    by (auto simp add: prefix_def)
  then show ?thesis
    by (simp add: render_append render_Plain)
qed

lemma replace_skip:
  "old \<noteq> [] \<Longrightarrow> hd old \<notin> set pre \<Longrightarrow>
     replace old new (pre @ s) = pre @ replace old new s"
  by (induction pre) (auto simp add: prefix_def neq_Nil_conv)

lemma replace_miss:
  "old \<noteq> [] \<Longrightarrow> \<not> prefix old (c # cs) \<Longrightarrow>
     replace old new (c # cs) = c # replace old new cs"
  by simp

lemma replace_hit:
  "old \<noteq> [] \<Longrightarrow> prefix old s \<Longrightarrow>
     replace old new s = new @ replace old new (drop (length old) s)"
  by (cases s) (auto simp add: neq_Nil_conv)

lemma replace_fold_ent:
  "CHR ''&'' \<notin> set nm \<Longrightarrow> tidy its \<Longrightarrow>
    replace (''&amp;'' @ nm) (spell out) (render its) = render (fold_ent nm out its)"
proof (induction nm out its rule: fold_ent.induct)
  case (1 nm out)
  then show ?case by (simp add: render_Nil)
next
  case (2 nm out x xs)
  define pat where "pat = ''&amp;'' @ nm"
  have pat_ne: "pat \<noteq> []" and pat_hd: "hd pat = CHR ''&''"
    by (simp_all add: pat_def)
  note clean = "2.prems"(1)
  from "2.prems" have tx: "tidy_item x" and txs: "tidy xs"
    by (simp_all add: tidy_def)
  show ?case
    unfolding pat_def [symmetric]
  proof (cases "x = EAmp \<and> prefix (map Plain nm) xs")
    case True
    with clean have "prefix nm (render xs)"
      using prefix_render [of nm xs] by blast
    with True have hit: "prefix pat (render (x # xs))"
      by (simp add: render_Cons pat_def)
    from txs have "tidy (drop (length nm) xs)"
      by (simp add: tidy_def list_all_iff) (meson in_set_dropD)
    with True "2.IH"(1) clean have ih:
      "replace pat (spell out) (render (drop (length nm) xs)) =
         render (fold_ent nm out (drop (length nm) xs))"
      by (simp add: pat_def)
    from True have "drop (length pat) (render (x # xs)) = drop (length nm) (render xs)"
      by (simp add: render_Cons pat_def)
    also from True have "\<dots> = render (drop (length nm) xs)"
      by (simp add: drop_render)
    finally have "replace pat (spell out) (render (x # xs)) =
        spell out @ replace pat (spell out) (render (drop (length nm) xs))"
      using replace_hit [OF pat_ne hit, of "spell out"] by simp
    moreover from True have "fold_ent nm out (x # xs) = out # fold_ent nm out (drop (length nm) xs)"
      by simp
    ultimately show "replace pat (spell out) (render (x # xs)) = render (fold_ent nm out (x # xs))"
      by (simp only: ih render_Cons)
  next
    case False
    with "2.IH"(2) txs clean have ih:
      "replace pat (spell out) (render xs) = render (fold_ent nm out xs)"
      by (simp add: pat_def)
    have miss: "\<not> prefix pat (render (x # xs))"
    proof (cases x)
      case (Plain c)
      with tx show ?thesis by (auto simp add: render_Cons reserved_def pat_def)
    next
      case EAmp
      with False clean have "\<not> prefix nm (render xs)"
        using prefix_render [of nm xs] by blast
      with EAmp show ?thesis by (simp add: render_Cons pat_def)
    next
      case ELt
      then show ?thesis by (simp add: render_Cons pat_def)
    next
      case EGt
      then show ?thesis by (simp add: render_Cons pat_def)
    qed
    have "CHR ''&'' \<notin> set (tl (spell x))"
      using tx by (cases x) (auto simp add: reserved_def)
    moreover have "spell x \<noteq> []"
      by (cases x) simp_all
    ultimately obtain c rest where sx: "spell x = c # rest" and nr: "CHR ''&'' \<notin> set rest"
      by (cases "spell x") auto
    have shape: "render (x # xs) = c # (rest @ render xs)"
      by (simp add: render_Cons sx)
    have "replace pat (spell out) (render (x # xs)) =
        c # replace pat (spell out) (rest @ render xs)"
      unfolding shape by (rule replace_miss [OF pat_ne]) (use miss shape in simp)
    also have "\<dots> = c # rest @ replace pat (spell out) (render xs)"
      using nr pat_ne pat_hd by (simp add: replace_skip)
    finally have "replace pat (spell out) (render (x # xs)) =
        spell x @ render (fold_ent nm out xs)"
      by (simp only: ih sx append_Cons)
    moreover have "fold_ent nm out (x # xs) = x # fold_ent nm out xs"
      using False by auto
    ultimately show "replace pat (spell out) (render (x # xs)) = render (fold_ent nm out (x # xs))"
      by (simp only: render_Cons)
  qed
qed

lemma tidy_fold_ent: "tidy its \<Longrightarrow> tidy_item out \<Longrightarrow> tidy (fold_ent nm out its)"
proof (induction nm out its rule: fold_ent.induct)
  case (1 nm out)
  then show ?case by (simp add: tidy_def)
next
  case (2 nm out x xs)
  from "2.prems" have "tidy (drop (length nm) xs)"
    by (simp add: tidy_def list_all_iff) (meson in_set_dropD)
  with 2 show ?case by (auto simp add: tidy_def)
qed

lemma escape_fix_items:
  assumes "tidy its"
  shows "escape_fix (render its) =
    render (fold_ent ''gt;'' EGt (fold_ent ''lt;'' ELt (fold_ent ''amp;'' EAmp its)))"
proof -
  let ?a = "fold_ent ''amp;'' EAmp its"
  let ?b = "fold_ent ''lt;'' ELt ?a"
  have "replace ''&amp;amp;'' ''&amp;'' (render its) = render ?a"
    using replace_fold_ent [of "''amp;''" its EAmp] assms by simp
  moreover have "replace ''&amp;lt;'' ''&lt;'' (render ?a) = render ?b"
    using replace_fold_ent [of "''lt;''" ?a ELt] tidy_fold_ent [OF assms, of EAmp] by simp
  moreover have "replace ''&amp;gt;'' ''&gt;'' (render ?b) = render (fold_ent ''gt;'' EGt ?b)"
    using replace_fold_ent [of "''gt;''" ?b EGt] tidy_fold_ent [OF assms, of EAmp]
      tidy_fold_ent [of ?a ELt] by simp
  ultimately show ?thesis
    by (simp add: escape_fix_def)
qed

subsection \<open>Escaping an already escaped text\<close>

lemma items_of_render: "tidy its \<Longrightarrow> map item_of (render its) = concat (map again its)"
proof (induction its)
  case Nil
  then show ?case by (simp add: render_Nil)
next
  case (Cons x xs)
  then have "tidy xs" and "tidy_item x"
    by (simp_all add: tidy_def)
  with Cons.IH show ?case
    by (cases x) (auto simp add: render_Cons reserved_def)
qed

lemma fold_amp_again: "fold_ent ''amp;'' EAmp (concat (map again its)) = concat (map again1 its)"
proof (induction its)
  case Nil
  then show ?case by simp
next
  case (Cons x xs)
  then show ?case by (cases x) simp_all
qed

lemma prefix_Plain_again1:
  "prefix (map Plain nm) (concat (map again1 xs)) \<longleftrightarrow> prefix (map Plain nm) xs"
proof (induction nm arbitrary: xs)
  case Nil
  then show ?case by simp
next
  case (Cons n nm)
  show ?case
  proof (cases xs)
    case Nil
    then show ?thesis by simp
  next
    case (Cons x xs')
    with Cons.IH [of xs'] show ?thesis by (cases x) auto
  qed
qed

lemma prefix_Plain_again2:
  "prefix (map Plain nm) (concat (map again2 xs)) \<longleftrightarrow> prefix (map Plain nm) xs"
proof (induction nm arbitrary: xs)
  case Nil
  then show ?case by simp
next
  case (Cons n nm)
  show ?case
  proof (cases xs)
    case Nil
    then show ?thesis by simp
  next
    case (Cons x xs')
    with Cons.IH [of xs'] show ?thesis by (cases x) auto
  qed
qed

lemma fold_lt_again:
  "free_of ''lt;'' its \<Longrightarrow> fold_ent ''lt;'' ELt (concat (map again1 its)) = concat (map again2 its)"
proof (induction its)
  case Nil
  then show ?case by simp
next
  case (Cons x xs)
  then have ih: "fold_ent ''lt;'' ELt (concat (map again1 xs)) = concat (map again2 xs)"
    by simp
  show ?case
  proof (cases x)
    case EAmp
    with Cons.prems have "\<not> prefix (map Plain ''lt;'') (concat (map again1 xs))"
      by (simp only: prefix_Plain_again1) simp
    with EAmp ih show ?thesis by simp
  qed (use ih in simp_all)
qed

lemma fold_gt_again:
  "free_of ''gt;'' its \<Longrightarrow> fold_ent ''gt;'' EGt (concat (map again2 its)) = its"
proof (induction its)
  case Nil
  then show ?case by simp
next
  case (Cons x xs)
  then have ih: "fold_ent ''gt;'' EGt (concat (map again2 xs)) = xs"
    by simp
  show ?case
  proof (cases x)
    case EAmp
    with Cons.prems have "\<not> prefix (map Plain ''gt;'') (concat (map again2 xs))"
      by (simp only: prefix_Plain_again2) simp
    with EAmp ih show ?thesis by simp
  qed (use ih in simp_all)
qed

subsection \<open>The doubly escaped entities are gone after the fix-up\<close>

lemma prefix_Plain_fold_ent:
  "out \<in> {EAmp, ELt, EGt} \<Longrightarrow>
     prefix (map Plain nm) (fold_ent nm' out xs) \<longleftrightarrow> prefix (map Plain nm) xs"
proof (induction nm arbitrary: xs)
  case Nil
  then show ?case by simp
next
  case (Cons n nm)
  show ?case
  proof (cases xs)
    case Nil
    then show ?thesis by simp
  next
    case (Cons x xs')
    with Cons.IH [of xs'] Cons.prems show ?thesis by (cases x) auto
  qed
qed

lemma free_of_drop: "free_of nm xs \<Longrightarrow> free_of nm (drop k xs)"
proof (induction xs arbitrary: k)
  case Nil
  then show ?case by simp
next
  case (Cons x xs)
  then show ?case by (cases k) simp_all
qed

lemma free_of_fold_same:
  "out \<in> {ELt, EGt} \<Longrightarrow> free_of nm (fold_ent nm out its)"
proof (induction nm out its rule: fold_ent.induct)
  case (1 nm out)
  then show ?case by simp
next
  case (2 nm out x xs)
  then have "prefix (map Plain nm) (fold_ent nm out xs) \<longleftrightarrow> prefix (map Plain nm) xs"
    using prefix_Plain_fold_ent [of out nm nm xs] by blast
  with 2 show ?case by auto
qed

lemma free_of_fold_other:
  "out \<in> {ELt, EGt} \<Longrightarrow> free_of nm its \<Longrightarrow> free_of nm (fold_ent nm' out its)"
proof (induction nm' out its rule: fold_ent.induct)
  case (1 nm' out)
  then show ?case by simp
next
  case (2 nm' out x xs)
  then have same: "prefix (map Plain nm) (fold_ent nm' out xs) \<longleftrightarrow> prefix (map Plain nm) xs"
    using prefix_Plain_fold_ent [of out nm nm' xs] by blast
  from "2.prems" have "free_of nm (drop (length nm') xs)"
    by (simp add: free_of_drop)
  with 2 same show ?case by auto
qed

lemma escape_xml_items:
  "escape_xml t =
     render (fold_ent ''gt;'' EGt (fold_ent ''lt;'' ELt (fold_ent ''amp;'' EAmp (map item_of t))))"
  by (simp add: escape_xml_def escape_subst_items escape_fix_items tidy_item_of render_Nil)

lemma escape_xml_fixed:
  assumes "tidy its" and "free_of ''lt;'' its" and "free_of ''gt;'' its"
  shows "escape_xml (render its) = render its"
proof -
  have "map item_of (render its) = concat (map again its)"
    using assms(1) by (rule items_of_render)
  then show ?thesis
    using assms by (simp add: escape_xml_items fold_amp_again fold_lt_again fold_gt_again)
qed

section \<open>The output of convert\_ch19.py only grows\<close>

lemma emit_grows: "prefix (output st) (output (emit xs st))"
  by (simp add: emit_def)

lemma close_open_sections_grows: "prefix (output st) (output (close_open_sections st))"
  by (simp add: close_open_sections_def emit_def)

lemma section_heading_grows:
  "section_heading line st = (brk, st') \<Longrightarrow> prefix (output st) (output st')"
  by (auto simp add: section_heading_def Let_def emit_def close_open_sections_def
      split: if_splits)

lemma subsection_heading_grows: "prefix (output st) (output (subsection_heading line st))"
  by (simp add: subsection_heading_def Let_def emit_def)

lemma read_metadata_output: "output (read_metadata ls st) = output st"
  by (induction ls st rule: read_metadata.induct) (simp_all add: Let_def)

lemma emit_chunk_grows: "prefix (output st) (output (emit_chunk code st))"
  by (simp add: emit_chunk_def Let_def emit_def)

lemma step19_grows:
  "step19 i raw rest st = (brk, rest', st') \<Longrightarrow> prefix (output st) (output st')"
  by (auto simp add: step19_def Let_def emit_def regular_paragraph_def
      subsection_heading_grows
      split: if_splits prod.splits
      dest: section_heading_grows
      intro: prefix_order.trans [OF _ emit_chunk_grows]
      simp add: read_metadata_output)

lemma main_loop_grows: "prefix (output st) (output (main_loop i ls st))"
proof (induction i ls st rule: main_loop.induct)
  case (1 i st)
  then show ?case by simp
next
  case (2 i raw rest st)
  obtain brk rest' st' where s: "step19 i raw rest st = (brk, rest', st')"
    by (cases "step19 i raw rest st") auto
  then have g: "prefix (output st) (output st')"
    by (rule step19_grows)
  show ?case
  proof (cases brk)
    case True
    with s g show ?thesis by simp
  next
    case False
    with s "2.IH"
    have "prefix (output st') (output (main_loop (i + (Suc (length rest) - length rest')) rest' st'))"
      by auto
    with g s False show ?thesis
      by (auto intro: prefix_order.trans)
  qed
qed


lemma contains_after: "contains sub s \<Longrightarrow> contains sub (p @ s)"
  by (induction p) auto

lemma contains_front: "contains sub (sub @ t)"
  by (cases "sub @ t") (auto simp add: prefix_def, metis)

lemma finish19_grows: "prefix (output st) (finish19 st)"
  using close_open_sections_grows [of st]
  by (auto simp add: finish19_def Let_def intro: prefix_order.trans)

lemma finish19_closed:
  "contains ''</chapter>'' (concat (drop (length (finish19 st) - 5) (finish19 st)))"
proof -
  let ?o = "output (close_open_sections st)"
  show ?thesis
  proof (cases "contains ''</chapter>'' (concat (drop (length ?o - 5) ?o))")
    case True
    then show ?thesis by (simp add: finish19_def Let_def)
  next
    case False
    have "contains ''</chapter>'' (''</chapter>'' @ ''\<newline>'')"
      by (rule contains_front)
    then have "contains ''</chapter>'' (concat (drop (Suc (length ?o) - 5) ?o) @ ''</chapter>\<newline>'')"
      by (intro contains_after) simp
    moreover have "Suc (length ?o) - 5 \<le> length ?o"
      by simp
    ultimately show ?thesis
      using False by (simp add: finish19_def Let_def)
  qed
qed

section \<open>Headings of convert\_ch19.py\<close>

lemma not_title_line:
  "startswith ''## '' l \<Longrightarrow> \<not> startswith ''# Inference for a single mean'' l"
  by (auto simp add: prefix_def)

lemma not_sub_line: "startswith ''## '' l \<Longrightarrow> \<not> startswith ''### '' l"
  by (auto simp add: prefix_def)

lemma generic_section_heading:
  assumes "generic_heading line" and "heading_id line \<noteq> []"
  shows "section_heading line st =
     (False, st\<lparr>in_intro := False, section_level := 1,
               output := output st @ heading_preamble st
                 @ [''\<newline>  <section xml:id='' @ [CHR 0x22] @ heading_id line @ [CHR 0x22] @ ''>\<newline>'',
                    ''    <title>'' @ heading_title ''## '' line @ ''</title>\<newline>'']\<rparr>)"
  using assms
  by (auto simp add: section_heading_def generic_heading_def heading_preamble_def Let_def
      emit_def close_open_sections_def)

section \<open>The worked-example identifier follows the rule\<close>

lemma ord_lower_char: "\<not> is_upper (lower_char c)"
  by (auto simp add: lower_char_def is_upper_def ord_def)

lemma lower_no_upper: "list_all (\<lambda>c. \<not> is_upper c) (lower t)"
  by (induction t) (simp_all add: lower_def ord_lower_char)

lemma hyphenate_in_run:
  "hyphenate_runs True cs = hyphenate_runs False (dropWhile (\<lambda>x. \<not> is_alnum x) cs)"
  by (induction cs) simp_all

lemma sub_runs_hyphenate:
  "list_all (\<lambda>c. \<not> is_upper c) s \<Longrightarrow>
     sub_span [] (\<lambda>c. \<not> lower_alnum c) [] (\<lambda>g. ''-'') s = hyphenate_runs False s"
proof (induction s rule: length_induct)
  case (1 s)
  show ?case
  proof (cases s)
    case Nil
    then show ?thesis by simp
  next
    case (Cons c cs)
    from "1.prems" Cons have nu: "\<not> is_upper c" and rest: "list_all (\<lambda>c. \<not> is_upper c) cs"
      by simp_all
    then have same: "\<And>x. x \<in> set (c # cs) \<Longrightarrow> lower_alnum x = is_alnum x"
      by (auto simp add: lower_alnum_def is_alnum_def list_all_iff)
    show ?thesis
    proof (cases "is_alnum c")
      case True
      with same [of c] have "lower_alnum c" by simp
      moreover have "sub_span [] (\<lambda>c. \<not> lower_alnum c) [] (\<lambda>g. ''-'') cs = hyphenate_runs False cs"
        using "1.IH" rest Cons by simp
      ultimately show ?thesis
        using Cons True by simp
    next
      case False
      with same [of c] have nl: "\<not> lower_alnum c" by simp
      have dw: "dropWhile (\<lambda>c. \<not> lower_alnum c) cs = dropWhile (\<lambda>x. \<not> is_alnum x) cs"
        using same by (intro dropWhile_cong) auto
      have "length (dropWhile (\<lambda>x. \<not> is_alnum x) cs) < length s"
        using Cons length_dropWhile_le [of "\<lambda>x. \<not> is_alnum x" cs] by simp
      moreover have "list_all (\<lambda>c. \<not> is_upper c) (dropWhile (\<lambda>x. \<not> is_alnum x) cs)"
        using rest by (simp add: list_all_iff) (meson set_dropWhileD)
      ultimately have "sub_span [] (\<lambda>c. \<not> lower_alnum c) [] (\<lambda>g. ''-'')
            (dropWhile (\<lambda>x. \<not> is_alnum x) cs)
          = hyphenate_runs False (dropWhile (\<lambda>x. \<not> is_alnum x) cs)"
        using "1.IH" by blast
      then show ?thesis
        using Cons False nl dw by (simp add: hyphenate_in_run)
    qed
  qed
qed

lemma strip_hyphen_trim: "strip_chars ''-'' s = trim_hyphens s"
  by (simp add: strip_chars_def trim_hyphens_def rstrip_with_def lstrip_with_def)

section \<open>What process\_code\_block puts into the listing and the figure\<close>

lemma sort_line_code:
  "code_content (sort_line m raw) =
     code_content m @ (if code_line (rstrip raw) then [rstrip raw] else [])"
  by (simp add: sort_line_def code_line_def Let_def)

lemma foldl_sort_line_code:
  "code_content (foldl sort_line m ls) = code_content m @ filter code_line (map rstrip ls)"
  by (induction ls arbitrary: m) (simp_all add: sort_line_code)

lemma sort_lines_code: "code_content (sort_lines ls) = filter code_line (map rstrip ls)"
  by (simp add: sort_lines_def foldl_sort_line_code empty_chunk_def)

lemma listing_part_kept:
  "listing_part (sort_lines code_lines) =
     (if kept_lines code_lines = [] then []
      else listing_head (sort_lines code_lines)
           @ map (\<lambda>l. escape_xml24 l @ ''\<newline>'') (kept_lines code_lines)
           @ listing_foot)"
  by (simp add: listing_part_def sort_lines_code kept_lines_def listing_head_def
      listing_foot_def Let_def)

lemma image_entries_subfigures:
  "filter image_entry (subfigures lbl i scs) = map (panel_image lbl) [i ..< i + length scs]"
proof (induction scs arbitrary: i)
  case Nil
  then show ?case by simp
next
  case (Cons sc scs)
  have "[i ..< i + length (sc # scs)] = i # [Suc i ..< Suc i + length scs]"
    by (simp add: upt_rec)
  with Cons [of "Suc i"] show ?case
    by (simp add: image_entry_def panel_image_def)
qed

lemma escape_xml24_chars:
  "escape_xml24 t = concat (map (\<lambda>c. if c = CHR ''&'' then ''&amp;'' else if c = CHR ''<'' then ''&lt;''
      else if c = CHR ''>'' then ''&gt;'' else [c]) t)"
  by (induction t) (simp_all add: escape_xml24_def replace_single)

lemma escape_xml24_no_lt: "CHR ''<'' \<notin> set (escape_xml24 t)"
  by (auto simp add: escape_xml24_chars split: if_splits)

lemma escaped_not_close: "escape_xml24 l @ ''\<newline>'' \<noteq> ''    </input>\<newline>''"
proof
  assume "escape_xml24 l @ ''\<newline>'' = ''    </input>\<newline>''"
  then have "escape_xml24 l = ''    </input>''"
    by simp
  then have "CHR ''<'' \<in> set (escape_xml24 l)"
    by simp
  then show False
    by (simp add: escape_xml24_no_lt)
qed

lemma takeWhile_escaped:
  "takeWhile (\<lambda>e. e \<noteq> ''    </input>\<newline>'') (map (\<lambda>l. escape_xml24 l @ ''\<newline>'') ks @ listing_foot @ tail)
     = map (\<lambda>l. escape_xml24 l @ ''\<newline>'') ks"
  by (induction ks) (simp_all add: escaped_not_close listing_foot_def)

section \<open>Claims\<close>

text \<open>
  C1. A close token pops exactly one frame, the innermost open block; the close of a
  solution scope nested in a special block is consumed before the outer close pops the
  block. In \<^verbatim>\<open>handle_guided_practice\<close> of convert\_ch17\_complete.py this fails: the
  test for the outer close is inverted. With a solution present the block is closed by the
  solution's close token and the block's own close token is left behind; with an empty
  solution both close tokens are taken into the block, which then runs on to the close
  token of a later block and drops what lies between.
\<close>

theorem guided_practice_closed_by_inner_marker:
  \<open>handle_guided_practice 1 ''::: {.guidedpractice data-latex=""}''
      [''Q'', ''::: {.callout-note collapse="true"}'', ''## Solution'', ''A'', '':::'', '':::'',
       ''After'']
    = ([''  <exercise>'', ''    <statement>'', ''      <p>'', ''        Q'', ''      </p>'',
        ''    </statement>'', ''    <solution>'', ''      <p>'', ''        A'', ''      </p>'',
        ''    </solution>'', ''  </exercise>''],
       ['':::'', ''After''])
   \<and> handle_guided_practice 1 ''::: {.guidedpractice data-latex=""}''
      [''Q'', ''::: {.callout-note collapse="true"}'', '':::'', '':::'', '''', ''After'', '''',
       ''::: {.data}'', ''D'', '':::'', ''End'']
    = ([''  <exercise>'', ''    <statement>'', ''      <p>'', ''        Q'', ''      </p>'',
        ''    </statement>'', ''  </exercise>''],
       [''End''])\<close>
  by code_simp

text \<open>
  C2. For a block with a solution the statement comes before the solution in the output and
  no text of one appears in the other. In convert\_ch19.py the line \<^verbatim>\<open>## Solution\<close> is
  taken by the heading branch, which comes first in the loop, so the marker is never
  recorded: a section titled Solution is opened in the middle of the block and the answer is
  written into the statement.
\<close>

theorem solution_text_lands_in_statement:
  \<open>convert19
     [''::: {.guidedpractice data-latex=""}\<newline>'', ''Q\<newline>'',
      ''::: {.callout-note collapse="true"}\<newline>'', ''## Solution\<newline>'', ''A\<newline>'', '':::\<newline>'',
      '':::\<newline>'']
    = [''<?xml version="1.0" encoding="UTF-8" ?>\<newline>'', ''\<newline>'',
       ''<chapter xml:id="ch19-inference-single-mean">\<newline>'',
       ''  <title>Inference for a single mean</title>\<newline>'', ''\<newline>'',
       ''  <introduction>\<newline>'', ''\<newline>  <section>\<newline>'', ''    <title>Solution</title>\<newline>'',
       ''\<newline>      <exercise>\<newline>'', ''        <statement>\<newline>'', ''          <p>Q</p>\<newline>'',
       ''          <p>::: {.callout-note collapse="true"}</p>\<newline>'',
       ''          <p>A</p>\<newline>'', ''        </statement>\<newline>'', ''      </exercise>\<newline>'',
       ''    <p>:::</p>\<newline>'', ''  </section>\<newline>'', ''</chapter>\<newline>'']\<close>
  by code_simp

text \<open>
  C3. A close token with no block open, or the end of the input inside an open block, makes
  the conversion fail with a structural error and no output. convert\_ch19.py has no such
  error: here a close token outside any block becomes a paragraph, the lines of the
  exercise that is open at the end are dropped, and the chapter is written.
\<close>

theorem unbalanced_blocks_counterexample:
  \<open>convert19 [''## S {#sec-s}\<newline>'', '':::\<newline>'', ''::: {.guidedpractice}\<newline>'', ''Q\<newline>'']
    = [''<?xml version="1.0" encoding="UTF-8" ?>\<newline>'', ''\<newline>'',
       ''<chapter xml:id="ch19-inference-single-mean">\<newline>'',
       ''  <title>Inference for a single mean</title>\<newline>'', ''\<newline>'',
       ''  <introduction>\<newline>'', ''\<newline>  <section xml:id="sec-s">\<newline>'',
       ''    <title>S</title>\<newline>'', ''    <p>:::</p>\<newline>'', ''  </section>\<newline>'',
       ''</chapter>\<newline>'']\<close>
  by code_simp

text \<open>
  C3, as the code has it. For every input the conversion of convert\_ch19.py returns an
  output: it begins with the chapter prologue, and the closing chapter tag is among its last
  five entries. Unbalanced blocks are not reported.
\<close>

theorem conversion_always_completes:
  "prefix (output initial19) (convert19 lines)
   \<and> contains ''</chapter>'' (concat (drop (length (convert19 lines) - 5) (convert19 lines)))"
  using main_loop_grows [of initial19 0 lines] finish19_grows [of "main_loop 0 lines initial19"]
  by (auto simp add: convert19_def finish19_closed intro: prefix_order.trans)

theorem conversion_always_completes_witness:
  \<open>prefix (output initial19)
      (convert19 [''## S {#sec-s}\<newline>'', '':::\<newline>'', ''::: {.guidedpractice}\<newline>'', ''Q\<newline>''])
   \<and> contains ''</chapter>''
      (concat (drop
         (length (convert19 [''## S {#sec-s}\<newline>'', '':::\<newline>'', ''::: {.guidedpractice}\<newline>'',
                             ''Q\<newline>'']) - 5)
         (convert19 [''## S {#sec-s}\<newline>'', '':::\<newline>'', ''::: {.guidedpractice}\<newline>'', ''Q\<newline>''])))\<close>
  by (rule conversion_always_completes)

text \<open>
  C4. The second of two declarations of one identifier fails with a duplicate-identifier
  error before any output. convert\_ch19.py keeps no record of identifiers: two sections
  that declare \<^verbatim>\<open>sec-a\<close> are both written, with the same identifier.
\<close>

theorem duplicate_id_counterexample:
  \<open>convert19 [''## One {#sec-a}\<newline>'', ''## Two {#sec-a}\<newline>'']
    = [''<?xml version="1.0" encoding="UTF-8" ?>\<newline>'', ''\<newline>'',
       ''<chapter xml:id="ch19-inference-single-mean">\<newline>'',
       ''  <title>Inference for a single mean</title>\<newline>'', ''\<newline>'',
       ''  <introduction>\<newline>'', ''\<newline>  <section xml:id="sec-a">\<newline>'',
       ''    <title>One</title>\<newline>'', ''  </section>\<newline>'',
       ''\<newline>  <section xml:id="sec-a">\<newline>'', ''    <title>Two</title>\<newline>'',
       ''  </section>\<newline>'', ''</chapter>\<newline>'']\<close>
  by code_simp

text \<open>
  C4, as the code has it. A generic heading of level one that declares an identifier is
  accepted in every state of the loop, whatever has been written before: the pass does not
  break, consumes the line, and appends the section's opening tag with that identifier and
  its title behind the tags that close what was open.
\<close>

theorem heading_accepted_in_every_state:
  assumes "generic_heading (rstrip raw)" and "heading_id (rstrip raw) \<noteq> []"
    and "5 \<le> i" and "\<not> contains ''```{r}'' (rstrip raw)"
  shows "step19 i raw rest st =
     (False, rest,
      st\<lparr>in_intro := False, section_level := 1,
         output := output st @ heading_preamble st
           @ [''\<newline>  <section xml:id='' @ [CHR 0x22] @ heading_id (rstrip raw) @ [CHR 0x22]
                @ ''>\<newline>'',
              ''    <title>'' @ heading_title ''## '' (rstrip raw) @ ''</title>\<newline>'']\<rparr>)"
proof -
  from assms(1) have h: "startswith ''## '' (rstrip raw)"
    by (simp add: generic_heading_def)
  show ?thesis
    using assms(3,4) h not_title_line [OF h] not_sub_line [OF h]
    by (simp add: step19_def Let_def generic_section_heading [OF assms(1,2)])
qed

theorem heading_accepted_in_every_state_witness:
  \<open>generic_heading (rstrip ''## Two {#sec-a}\<newline>'')
   \<and> heading_id (rstrip ''## Two {#sec-a}\<newline>'') \<noteq> []
   \<and> (5::nat) \<le> 6
   \<and> \<not> contains ''```{r}'' (rstrip ''## Two {#sec-a}\<newline>'')
   \<and> step19 6 ''## Two {#sec-a}\<newline>'' []
        (initial19\<lparr>in_intro := False, section_level := 1,
           output := output initial19 @ [''\<newline>  <section xml:id="sec-a">\<newline>'']\<rparr>)
      = (False, [],
         initial19\<lparr>in_intro := False, section_level := 1,
           output := output initial19 @ [''\<newline>  <section xml:id="sec-a">\<newline>'']
             @ [''  </section>\<newline>'', ''\<newline>  <section xml:id="sec-a">\<newline>'',
                ''    <title>Two</title>\<newline>'']\<rparr>)\<close>
proof -
  let ?raw = "''## Two {#sec-a}\<newline>''"
  let ?st = \<open>initial19\<lparr>in_intro := False, section_level := 1,
           output := output initial19 @ [''\<newline>  <section xml:id="sec-a">\<newline>'']\<rparr>\<close>
  have h1: "generic_heading (rstrip ?raw)" by code_simp
  have h2: "heading_id (rstrip ?raw) \<noteq> []" by code_simp
  have h3: "(5::nat) \<le> 6" by simp
  have h4: "\<not> contains ''```{r}'' (rstrip ?raw)" by code_simp
  have e1: \<open>heading_id (rstrip ?raw) = ''sec-a''\<close> by code_simp
  have e2: \<open>heading_title ''## '' (rstrip ?raw) = ''Two''\<close> by code_simp
  have e3: \<open>heading_preamble ?st = [''  </section>\<newline>'']\<close>
    by (simp add: heading_preamble_def)
  from heading_accepted_in_every_state [OF h1 h2 h3 h4, of "[]" ?st]
  have "step19 6 ?raw [] ?st =
     (False, [],
      ?st\<lparr>in_intro := False, section_level := 1,
         output := output ?st @ heading_preamble ?st
           @ [''\<newline>  <section xml:id='' @ [CHR 0x22] @ heading_id (rstrip ?raw) @ [CHR 0x22]
                @ ''>\<newline>'',
              ''    <title>'' @ heading_title ''## '' (rstrip ?raw) @ ''</title>\<newline>'']\<rparr>)" .
  then have \<open>step19 6 ?raw [] ?st =
      (False, [],
         initial19\<lparr>in_intro := False, section_level := 1,
           output := output initial19 @ [''\<newline>  <section xml:id="sec-a">\<newline>'']
             @ [''  </section>\<newline>'', ''\<newline>  <section xml:id="sec-a">\<newline>'',
                ''    <title>Two</title>\<newline>'']\<rparr>)\<close>
    by (simp only: e1 e2 e3) simp
  with h1 h2 h3 h4 show ?thesis
    by blast
qed

text \<open>
  C5. The inline converter protects math and code spans, so that the later rewriting steps
  never touch a character inside them, and restores them unchanged. In \<^verbatim>\<open>convert_inline\<close>
  of convert\_ch17\_complete.py the cross-references and citations are rewritten after the
  spans have been put back, so a reference inside a math or code span is rewritten; and
  \<^verbatim>\<open>process_line\<close> of convert\_ch19.py, which has no placeholders, rewrites emphasis inside
  math.
\<close>

theorem convert_inline_rewrites_protected_span:
  \<open>convert_inline ''$@fig-a$'' = ''<m><xref ref="fig-a" /></m>''
   \<and> convert_inline ''`@sec-x`'' = ''<c><xref ref="sec-x" /></c>''
   \<and> process_line ''$a*b*c$'' = ''<m>a<em>b</em>c</m>''\<close>
  by code_simp

text \<open>
  C6. Where a heading has no explicit identifier, the identifier is the title in lower case
  with every run of non-alphanumeric characters replaced by one hyphen and the hyphens at
  both ends trimmed, and every site derives it so. The sites differ: for a title with a
  comma, two blanks and an exclamation mark, convert\_ch24\_enhanced.py keeps the exclamation
  mark and writes two hyphens, and the sections of convert\_ch17\_full.py get a fixed
  identifier.
\<close>

theorem fallback_id_counterexample:
  "title_slug24 ''Hello,  World!'' = ''hello--world!''
   \<and> section_id24 ''## Hello,  World!'' = ''sec-hello--world!''
   \<and> subsection_id24 ''### Hello,  World!'' = ''subsec-hello--world!''
   \<and> spec_fallback_id ''Hello,  World!'' = ''hello-world''
   \<and> section_id17 None = ''sec-unknown''"
  by code_simp

text \<open>
  C6, as the code has it. At the worked examples of convert\_ch17\_full.py the identifier
  synthesized from a non-empty title is the one the rule gives (written behind \<^verbatim>\<open>ex-\<close>).
\<close>

theorem example_slug_follows_rule:
  "ex_title \<noteq> [] \<Longrightarrow> example_slug ex_title = spec_fallback_id ex_title"
  by (simp add: example_slug_def spec_fallback_id_def strip_hyphen_trim sub_runs_hyphenate
      lower_no_upper)

theorem example_slug_follows_rule_witness:
  "''Hello,  World!'' \<noteq> []
   \<and> example_slug ''Hello,  World!'' = spec_fallback_id ''Hello,  World!''
   \<and> example_id ''Hello,  World!'' = ''ex-hello-world''"
proof -
  have h: "''Hello,  World!'' \<noteq> []" by simp
  have e: "example_id ''Hello,  World!'' = ''ex-hello-world''" by code_simp
  from example_slug_follows_rule [OF h] h e show ?thesis
    by blast
qed

text \<open>
  C7. The image paths of a figure with label L are L-1.png, L-2.png and so on, for one
  panel as for several. convert\_ch19.py names the image differently: the label without
  \<^verbatim>\<open>fig-\<close>, and no panel number.
\<close>

theorem figure_source_counterexample:
  \<open>drop 5 (convert19 (replicate 30 ''\<newline>''
      @ [''```{r}\<newline>'', ''#| label: fig-x\<newline>'', ''#| fig-cap: |\<newline>'', ''#|   A caption\<newline>'',
         ''plot(x)\<newline>'', ''```\<newline>'']))
    = [''\<newline>      <figure xml:id="fig-x">\<newline>'', ''        <caption>A caption</caption>\<newline>'',
       ''        <image source="x.png" width="70%"/>\<newline>'', ''      </figure>\<newline>'',
       ''</chapter>\<newline>'']
   \<and> \<not> list_ex (contains ''fig-x-1.png'')
        (convert19 (replicate 30 ''\<newline>''
           @ [''```{r}\<newline>'', ''#| label: fig-x\<newline>'', ''#| fig-cap: |\<newline>'', ''#|   A caption\<newline>'',
              ''plot(x)\<newline>'', ''```\<newline>'']))\<close>
  by code_simp

text \<open>
  C7, as the code has it. In \<^verbatim>\<open>process_code_block\<close> a chunk with a label L and a caption
  becomes a figure whose image entries are, in order, one for each sub-caption with the
  path images/L-n.png, n counting from 1; without sub-captions there is the one entry
  images/L-1.png.
\<close>

theorem figure_images_from_label:
  "label m \<noteq> [] \<Longrightarrow> caption_lines m \<noteq> [] \<Longrightarrow>
     filter image_entry (figure_part markup m) =
       (if subcap_lines m = [] then [single_image (label m)]
        else map (panel_image (label m)) [1 ..< Suc (length (subcap_lines m))])"
  by (simp add: figure_part_def Let_def image_entries_subfigures image_entry_def
      single_image_def)

theorem figure_images_from_label_witness:
  \<open>label (sort_lines [''#| label: fig-x'', ''#| fig-cap: A caption'', ''#| fig-subcap:'',
                       ''#|   - one'', ''#|   - two'', ''plot(x)'']) \<noteq> []
   \<and> caption_lines (sort_lines [''#| label: fig-x'', ''#| fig-cap: A caption'',
                       ''#| fig-subcap:'', ''#|   - one'', ''#|   - two'', ''plot(x)'']) \<noteq> []
   \<and> filter image_entry
        (figure_part (\<lambda>s. s)
           (sort_lines [''#| label: fig-x'', ''#| fig-cap: A caption'', ''#| fig-subcap:'',
                        ''#|   - one'', ''#|   - two'', ''plot(x)'']))
      = [''      <image source="images/fig-x-1.png" width="90%" />\<newline>'',
         ''      <image source="images/fig-x-2.png" width="90%" />\<newline>'']\<close>
proof -
  let ?m = "sort_lines [''#| label: fig-x'', ''#| fig-cap: A caption'', ''#| fig-subcap:'',
                        ''#|   - one'', ''#|   - two'', ''plot(x)'']"
  have h1: "label ?m \<noteq> []" by code_simp
  have h2: "caption_lines ?m \<noteq> []" by code_simp
  have e: \<open>(if subcap_lines ?m = [] then [single_image (label ?m)]
        else map (panel_image (label ?m)) [1 ..< Suc (length (subcap_lines ?m))])
      = [''      <image source="images/fig-x-1.png" width="90%" />\<newline>'',
         ''      <image source="images/fig-x-2.png" width="90%" />\<newline>'']\<close>
    by code_simp
  from figure_images_from_label [OF h1 h2, of "\<lambda>s. s"] e h1 h2 show ?thesis
    by (simp only: simp_thms)
qed

text \<open>
  C8. A listing reproduces the source lines of its chunk, escaped and otherwise unchanged,
  and drops none of them, blank or not. \<^verbatim>\<open>process_code_block\<close> and convert\_ch19.py both
  leave out the blank lines.
\<close>

theorem listing_drops_lines_counterexample:
  \<open>input_entries (code_block_result (\<lambda>s. s) [''x <- 1'', '''', ''  y <- 2''])
     = [''x &lt;- 1\<newline>'', ''  y &lt;- 2\<newline>'']
   \<and> input_entries (code_block_result (\<lambda>s. s) [''x <- 1'', '''', ''  y <- 2''])
     \<noteq> map (\<lambda>l. escape_xml24 l @ ''\<newline>'') [''x <- 1'', '''', ''  y <- 2'']
   \<and> drop 5 (convert19 (replicate 30 ''\<newline>''
        @ [''```{r}\<newline>'', ''x <- 1\<newline>'', ''\<newline>'', ''  y <- 2\<newline>'', ''```\<newline>'']))
     = [''\<newline>      <listing>\<newline>'', ''        <program language="r"><input>\<newline>'',
        ''x &lt;- 1\<newline>\<newline>'', ''  y &lt;- 2\<newline>\<newline>'', ''        </input></program>\<newline>'',
        ''      </listing>\<newline>'', ''</chapter>\<newline>'']\<close>
  by code_simp

text \<open>
  C8, as the code has it. In \<^verbatim>\<open>process_code_block\<close> the entries between the opening and
  the closing input tag are the lines of the chunk that are neither metadata nor blank, in
  their order, each with the white space at its end removed and escaped, and followed by a
  line feed.
\<close>

theorem listing_holds_kept_lines:
  "kept_lines code_lines \<noteq> [] \<Longrightarrow>
     input_entries (code_block_result markup code_lines) =
       map (\<lambda>l. escape_xml24 l @ ''\<newline>'') (kept_lines code_lines)"
  by (simp add: code_block_result_def listing_part_kept input_entries_def listing_head_def
      takeWhile_escaped)

theorem listing_holds_kept_lines_witness:
  \<open>kept_lines [''#| label: fig-x'', ''x <- 1  '', '''', ''  y <- 2''] \<noteq> []
   \<and> input_entries (code_block_result (\<lambda>s. s) [''#| label: fig-x'', ''x <- 1  '', '''', ''  y <- 2''])
      = map (\<lambda>l. escape_xml24 l @ ''\<newline>'')
          (kept_lines [''#| label: fig-x'', ''x <- 1  '', '''', ''  y <- 2''])
   \<and> kept_lines [''#| label: fig-x'', ''x <- 1  '', '''', ''  y <- 2''] = [''x <- 1'', ''  y <- 2'']\<close>
proof -
  have h: "kept_lines [''#| label: fig-x'', ''x <- 1  '', '''', ''  y <- 2''] \<noteq> []"
    by code_simp
  have e: "kept_lines [''#| label: fig-x'', ''x <- 1  '', '''', ''  y <- 2''] = [''x <- 1'', ''  y <- 2'']"
    by code_simp
  from listing_holds_kept_lines [OF h, of "\<lambda>s. s"] h e show ?thesis
    by blast
qed

text \<open>
  C9. convert\_ch24\_enhanced.py repeats an \<^verbatim>\<open>if\<close> header without a body (lines 495 and
  496), so Python rejects the text of the module before any of it runs. This is a fact about
  the text of the module and not about a function in it; it is not stated in this theory.
\<close>

text \<open>
  C10. \<^verbatim>\<open>escape_xml\<close> of convert\_ch17\_comprehensive.py is idempotent: escaping an
  already escaped text gives the same text, for every input string.
\<close>

theorem escape_xml_idempotent: "escape_xml (escape_xml t) = escape_xml t"
proof -
  let ?a = "fold_ent ''amp;'' EAmp (map item_of t)"
  let ?b = "fold_ent ''lt;'' ELt ?a"
  let ?c = "fold_ent ''gt;'' EGt ?b"
  have "tidy ?a"
    by (rule tidy_fold_ent) (simp_all add: tidy_item_of)
  then have "tidy ?b"
    by (rule tidy_fold_ent) simp
  then have "tidy ?c"
    by (rule tidy_fold_ent) simp
  moreover have "free_of ''lt;'' ?b"
    by (rule free_of_fold_same) simp
  then have "free_of ''lt;'' ?c"
    by (rule free_of_fold_other [rotated]) simp
  moreover have "free_of ''gt;'' ?c"
    by (rule free_of_fold_same) simp
  ultimately have "escape_xml (render ?c) = render ?c"
    by (rule escape_xml_fixed)
  then show ?thesis
    by (simp only: escape_xml_items [symmetric])
qed

theorem escape_xml_idempotent_witness:
  "escape_xml (escape_xml ''a < b && c &amp;lt; d'') = escape_xml ''a < b && c &amp;lt; d''
   \<and> escape_xml ''a < b && c &amp;lt; d'' = ''a &lt; b &amp;&amp; c &lt; d''"
  using escape_xml_idempotent [of "''a < b && c &amp;lt; d''"]
  by (simp add: escape_xml_def escape_subst_def escape_fix_def)

end
